(* ===== verification/Prelude.thy ===== *)
theory Prelude
  imports Main "HOL-Library.Word" "HOL-Library.Sublist"
begin

text \<open>
  Shared vocabulary of the development: the types that name the model's data
  (bytes, JavaScript strings), the model of the two JavaScript built-ins the
  program relies on for its list logic (\<open>[...new Set(xs)]\<close> and the
  uncaught exception of an event handler), the named collections the component
  theories fill, and generic lemmas on lists that the component proofs share.
\<close>

section \<open>Named collections\<close>

named_theorems handler_defs \<open>definitions of the event handlers of app.js\<close>
named_theorems model_simps \<open>characteristic equations of the model's list operations\<close>

section \<open>Types\<close>

text \<open>
  A JavaScript string is a sequence of UTF-16 code units; the model keeps it as a
  HOL \<open>string\<close> whose characters are the code units (all literals of
  \<^verbatim>\<open>src/app.js\<close> lie below 256, e.g. the \<open>\<acute>u\<close> of "Ning\<acute>un" is \<open>CHR 0xFA\<close>).
  The bytes of an uploaded file are 8-bit words.
\<close>

type_synonym byte = "8 word"
type_synonym js_string = string

text \<open>
  An event handler that throws leaves behind the effects it made before the
  throw; the exception itself is reported on the console and the page goes on.
  A handler's result is therefore either the exception together with the state
  at the throw point (\<open>Inl\<close>) or the state after a normal return (\<open>Inr\<close>).
\<close>

datatype js_error = TypeError js_string

type_synonym 'a js_result = "(js_error \<times> 'a) + 'a"

section \<open>\<open>[...new Set(xs)]\<close>\<close>

text \<open>
  \<open>new Set(xs)\<close> inserts the elements of \<open>xs\<close> one after the other, skipping
  those already present (compared with SameValueZero, which on strings is string
  equality), and iterates in insertion order; spreading it gives that order.
\<close>

fun js_set_add_all :: "'a list \<Rightarrow> 'a list \<Rightarrow> 'a list" where
  "js_set_add_all acc [] = acc"
| "js_set_add_all acc (x # xs) =
     js_set_add_all (if x \<in> set acc then acc else acc @ [x]) xs"

definition js_set_values :: "'a list \<Rightarrow> 'a list" where
  "js_set_values xs = js_set_add_all [] xs"

lemma js_set_add_all_append [model_simps]:
  "js_set_add_all acc (xs @ ys) = js_set_add_all (js_set_add_all acc xs) ys"
  by (induction xs arbitrary: acc) auto

lemma set_js_set_add_all [model_simps]:
  "set (js_set_add_all acc xs) = set acc \<union> set xs"
  by (induction xs arbitrary: acc) auto

lemma distinct_js_set_add_all:
  "distinct acc \<Longrightarrow> distinct (js_set_add_all acc xs)"
  by (induction xs arbitrary: acc) auto

lemma js_set_values_snoc [model_simps]:
  "js_set_values (xs @ [x]) =
     js_set_values xs @ (if x \<in> set xs then [] else [x])"
  by (simp add: js_set_values_def js_set_add_all_append set_js_set_add_all)

lemma set_js_set_values [model_simps]: "set (js_set_values xs) = set xs"
  by (simp add: js_set_values_def set_js_set_add_all)

lemma distinct_js_set_values [model_simps]: "distinct (js_set_values xs)"
  by (simp add: js_set_values_def distinct_js_set_add_all)

text \<open>
  The order is that of first occurrence: the result is the list with every
  later repetition removed, which is \<open>remdups\<close> (that keeps last occurrences)
  read backwards.
\<close>

lemma js_set_values_first_seen:
  "js_set_values xs = rev (remdups (rev xs))"
proof (induction xs rule: rev_induct)
  case Nil
  show ?case by (simp add: js_set_values_def)
next
  case (snoc x xs)
  then show ?case by (simp add: js_set_values_snoc)
qed

section \<open>Number to string\<close>

text \<open>
  A template literal \<open>`${n}`\<close> and the string conversion of a non-negative
  integer number give its decimal digits without leading zeros.
\<close>

definition decimal_digits :: js_string where
  "decimal_digits = ''0123456789''"

fun js_nat_str :: "nat \<Rightarrow> js_string" where
  "js_nat_str n =
     (if n < 10 then [decimal_digits ! n]
      else js_nat_str (n div 10) @ [decimal_digits ! (n mod 10)])"

declare js_nat_str.simps [simp del]

lemma js_nat_str_nonempty: "js_nat_str n \<noteq> []"
  by (simp add: js_nat_str.simps [of n])

section \<open>Generic list lemmas\<close>

text \<open>The index of the first element with a property (\<open>findIndex\<close>, with \<open>None\<close> for -1).\<close>

fun first_index :: "('a \<Rightarrow> bool) \<Rightarrow> 'a list \<Rightarrow> nat option" where
  "first_index P [] = None"
| "first_index P (x # xs) =
     (if P x then Some 0 else map_option Suc (first_index P xs))"

lemma first_index_Some:
  "first_index P xs = Some i \<Longrightarrow> i < length xs \<and> P (xs ! i)"
  by (induction xs arbitrary: i) (auto split: if_splits)

lemma first_index_nth_distinct:
  "distinct xs \<Longrightarrow> i < length xs \<Longrightarrow> first_index (\<lambda>x. x = xs ! i) xs = Some i"
proof (induction xs arbitrary: i)
  case Nil
  then show ?case by simp
next
  case (Cons y ys)
  show ?case
  proof (cases i)
    case 0
    then show ?thesis by simp
  next
    case (Suc j)
    with Cons.prems have "ys ! j \<noteq> y" and "j < length ys" by (auto simp: nth_mem)
    moreover from Cons.prems Suc have "first_index (\<lambda>x. x = ys ! j) ys = Some j"
      by (intro Cons.IH) auto
    ultimately show ?thesis using Suc by simp
  qed
qed


text \<open>The list without its \<open>i\<close>-th element (unchanged when there is none).\<close>

definition remove_at :: "nat \<Rightarrow> 'a list \<Rightarrow> 'a list" where
  "remove_at i xs = take i xs @ drop (Suc i) xs"

lemma sublist_append_left_mono: "sublist xs ys \<Longrightarrow> sublist xs (zs @ ys)"
  by (auto simp: sublist_def) (metis append.assoc)

lemma filter_filter_conj [model_simps]:
  "filter Q (filter P xs) = filter (\<lambda>x. P x \<and> Q x) xs"
  by (induction xs) auto

lemma find_Some_first:
  "List.find P xs = Some x \<Longrightarrow> x \<in> set xs \<and> P x"
  by (induction xs) (auto split: if_splits)

lemma find_filter_neg [model_simps]:
  "List.find P (filter (\<lambda>x. \<not> P x) xs) = None"
  by (induction xs) auto

section \<open>Parsing a decimal literal\<close>

text \<open>
  Reading the digits back, as the JavaScript parser reads the numeric literal in
  an inline handler such as \<open>onclick="downloadDocument(12)"\<close>: \<open>None\<close> for
  an empty string or a character that is not a decimal digit.
\<close>

fun parse_digits :: "nat \<Rightarrow> js_string \<Rightarrow> nat option" where
  "parse_digits acc [] = Some acc"
| "parse_digits acc (c # cs) =
     (case first_index (\<lambda>x. x = c) decimal_digits of
        None \<Rightarrow> None
      | Some k \<Rightarrow> parse_digits (acc * 10 + k) cs)"

definition js_parse_nat :: "js_string \<Rightarrow> nat option" where
  "js_parse_nat s = (if s = [] then None else parse_digits 0 s)"

lemma parse_digits_append:
  "parse_digits acc (xs @ ys) = (case parse_digits acc xs of None \<Rightarrow> None | Some a \<Rightarrow> parse_digits a ys)"
  by (induction xs arbitrary: acc) (auto split: option.splits)

lemma first_index_digit:
  "k < 10 \<Longrightarrow> first_index (\<lambda>x. x = decimal_digits ! k) decimal_digits = Some k"
  by (intro first_index_nth_distinct) (simp_all add: decimal_digits_def)

lemma parse_js_nat_str: "parse_digits 0 (js_nat_str n) = Some n"
proof (induction n rule: js_nat_str.induct)
  case (1 n)
  show ?case
  proof (cases "n < 10")
    case True
    then show ?thesis by (simp add: js_nat_str.simps [of n] first_index_digit)
  next
    case False
    with "1.IH" have "parse_digits 0 (js_nat_str (n div 10)) = Some (n div 10)" by simp
    then show ?thesis using False
      by (simp add: js_nat_str.simps [of n] parse_digits_append first_index_digit)
  qed
qed

end
