(* ===== verification/Documents.thy ===== *)
theory Documents
  imports Prelude
begin

text \<open>
  The data of \<^verbatim>\<open>src/app.js\<close>: a document record as the object literals of
  lines 3--35 and 123--133 build it, the module-level array \<open>documents\<close> with
  its three initial entries, and the well-formedness conditions the rest of the
  development tracks (every record carries a file; the ids are distinct).
\<close>

section \<open>Records\<close>

text \<open>
  \<open>file: { name, data }\<close>: the original file name and the data URL that
  \<open>FileReader.readAsDataURL\<close> produced for the file's bytes.
\<close>

record file_obj =
  fo_name :: js_string
  fo_data :: js_string

text \<open>
  \<open>{ id, provider, name, type, date, file }\<close>. The id is a JavaScript number
  that the code only ever sets to a positive integer (\<open>documents.length + 1\<close>),
  so it is a \<open>nat\<close>. \<open>file\<close> is an \<open>option\<close> because
  \<open>downloadDocument\<close> tests it (\<open>!doc.file\<close>, line 171): the model keeps
  the branch, and the invariant \<open>all_have_file\<close> shows it is never taken.
\<close>

record doc =
  doc_id :: nat
  provider :: js_string
  doc_name :: js_string
  doc_type :: js_string
  date :: js_string
  doc_file :: "file_obj option"

section \<open>Initial data\<close>

text \<open>
  The three records of lines 2--36. Their \<open>data\<close> fields are the literal,
  truncated data URL of the source (the comment says "Base64 truncado por
  brevedad").
\<close>

definition sample_pdf_data :: js_string where
  "sample_pdf_data = ''data:application/pdf;base64,JVBERi0xLjQKJ...''"

definition initial_documents :: "doc list" where
  "initial_documents =
    [\<lparr>doc_id = 1, provider = ''Proveedor A'', doc_name = ''Contrato de Servicios 2024'',
      doc_type = ''Contrato'', date = ''2024-01-15'',
      doc_file = Some \<lparr>fo_name = ''contrato_servicios.pdf'', fo_data = sample_pdf_data\<rparr>\<rparr>,
     \<lparr>doc_id = 2, provider = ''Proveedor A'', doc_name = ''Factura #001-2024'',
      doc_type = ''Factura'', date = ''2024-02-20'',
      doc_file = Some \<lparr>fo_name = ''factura_001.pdf'', fo_data = sample_pdf_data\<rparr>\<rparr>,
     \<lparr>doc_id = 3, provider = ''Proveedor B'', doc_name = ''Certificado de Calidad'',
      doc_type = ''Certificado'', date = ''2024-03-10'',
      doc_file = Some \<lparr>fo_name = ''certificado_calidad.pdf'', fo_data = sample_pdf_data\<rparr>\<rparr>]"

section \<open>Well-formedness\<close>

definition doc_ids :: "doc list \<Rightarrow> nat list" where
  "doc_ids docs = map doc_id docs"

definition ids_distinct :: "doc list \<Rightarrow> bool" where
  "ids_distinct docs \<longleftrightarrow> distinct (doc_ids docs)"

definition all_have_file :: "doc list \<Rightarrow> bool" where
  "all_have_file docs \<longleftrightarrow> list_all (\<lambda>d. doc_file d \<noteq> None) docs"

text \<open>
  The stronger shape the ids have as long as nothing was deleted: the \<open>i\<close>-th
  record (from 0) has id \<open>i + 1\<close>.
\<close>

definition ids_consecutive :: "doc list \<Rightarrow> bool" where
  "ids_consecutive docs \<longleftrightarrow> doc_ids docs = [1..<Suc (length docs)]"

lemma doc_ids_simps [simp]:
  "doc_ids [] = []"
  "doc_ids (d # ds) = doc_id d # doc_ids ds"
  "doc_ids (xs @ ys) = doc_ids xs @ doc_ids ys"
  "length (doc_ids docs) = length docs"
  by (simp_all add: doc_ids_def)

lemma ids_consecutive_distinct: "ids_consecutive docs \<Longrightarrow> ids_distinct docs"
  by (simp add: ids_consecutive_def ids_distinct_def)

lemma ids_consecutive_snoc:
  "ids_consecutive docs \<Longrightarrow> doc_id d = Suc (length docs) \<Longrightarrow> ids_consecutive (docs @ [d])"
  by (simp add: ids_consecutive_def)

lemma ids_consecutive_bound:
  "ids_consecutive docs \<Longrightarrow> d \<in> set docs \<Longrightarrow> doc_id d \<le> length docs"
proof -
  assume c: "ids_consecutive docs" and d: "d \<in> set docs"
  from d have "doc_id d \<in> set (doc_ids docs)" by (simp add: doc_ids_def)
  with c have "doc_id d \<in> set [1..<Suc (length docs)]"
    by (simp only: ids_consecutive_def)
  then show ?thesis by (simp del: upt_Suc)
qed

lemma all_have_file_simps [simp]:
  "all_have_file []"
  "all_have_file (xs @ ys) \<longleftrightarrow> all_have_file xs \<and> all_have_file ys"
  "all_have_file [d] \<longleftrightarrow> doc_file d \<noteq> None"
  by (simp_all add: all_have_file_def)

lemma all_have_file_filter: "all_have_file docs \<Longrightarrow> all_have_file (filter P docs)"
  by (induction docs) (auto simp: all_have_file_def)

lemma initial_documents_wf:
  "ids_consecutive initial_documents \<and> all_have_file initial_documents"
  by (simp add: initial_documents_def ids_consecutive_def doc_ids_def all_have_file_def
      upt_rec)

end
