(* ===== verification/Collection.thy ===== *)
theory Collection
  imports Documents
begin

text \<open>
  The list logic of \<^verbatim>\<open>src/app.js\<close> that reads or rewrites the array
  \<open>documents\<close>, separated from the DOM code around it: the provider list of
  \<open>renderProviderTabs\<close>, the two filters, the record built and pushed by the
  form's \<open>onload\<close>, the \<open>filter\<close> of \<open>deleteDocument\<close> and the lookup of
  \<open>downloadDocument\<close>. Each is a function of the array; the page theory calls
  them from the handlers. The lemmas give each operation's result on every
  branch, the invariants each operation keeps or breaks, and the combined filter
  as one predicate.
\<close>

section \<open>Operations\<close>

text \<open>\<open>[...new Set(documents.map(doc => doc.provider))]\<close> (line 53).\<close>

definition providers_of :: "doc list \<Rightarrow> js_string list" where
  "providers_of docs = js_set_values (map provider docs)"

text \<open>\<open>filterByProvider\<close> (lines 76--81) without its rendering call.\<close>

definition filter_by_provider :: "js_string \<Rightarrow> doc list \<Rightarrow> doc list" where
  "filter_by_provider p docs =
     (if p = ''all'' then docs else filter (\<lambda>d. provider d = p) docs)"

text \<open>
  The body of the \<open>applyFilter\<close> handler (lines 149--155) once the active
  provider and the type have been read: a provider filter unless the provider is
  \<open>'all'\<close>, then a type filter when the type string is truthy, i.e. non-empty.
\<close>

definition apply_filters :: "js_string \<Rightarrow> js_string \<Rightarrow> doc list \<Rightarrow> doc list" where
  "apply_filters active_provider filter_type docs =
     (let d1 = (if active_provider \<noteq> ''all''
                then filter (\<lambda>d. provider d = active_provider) docs else docs)
      in if filter_type \<noteq> [] then filter (\<lambda>d. doc_type d = filter_type) d1 else d1)"

text \<open>
  The object literal of the reader's \<open>onload\<close> (lines 123--133): the id is
  the current length plus one; the four text fields are the form's values at the
  time the read completes; the file name is that of the file selected at that
  time; the data is the reader's result.
\<close>

definition new_doc ::
  "doc list \<Rightarrow> js_string \<Rightarrow> js_string \<Rightarrow> js_string \<Rightarrow> js_string \<Rightarrow> js_string \<Rightarrow> js_string \<Rightarrow> doc" where
  "new_doc docs prov nm ty dt fname result =
     \<lparr>doc_id = length docs + 1, provider = prov, doc_name = nm, doc_type = ty, date = dt,
      doc_file = Some \<lparr>fo_name = fname, fo_data = result\<rparr>\<rparr>"

text \<open>\<open>documents.push(newDoc)\<close> (line 135).\<close>

definition push_doc :: "doc list \<Rightarrow> doc \<Rightarrow> doc list" where
  "push_doc docs d = docs @ [d]"

text \<open>\<open>documents = documents.filter(doc => doc.id !== id)\<close> (line 188).\<close>

definition delete_by_id :: "nat \<Rightarrow> doc list \<Rightarrow> doc list" where
  "delete_by_id i docs = filter (\<lambda>d. doc_id d \<noteq> i) docs"

text \<open>\<open>documents.find(d => d.id === id)\<close> (line 170).\<close>

definition find_by_id :: "nat \<Rightarrow> doc list \<Rightarrow> doc option" where
  "find_by_id i docs = List.find (\<lambda>d. doc_id d = i) docs"

text \<open>
  What \<open>downloadDocument\<close> (lines 169--178) computes before touching the DOM:
  the alert message when the record or its file is missing, otherwise the
  link's \<open>href\<close> and \<open>download\<close> attributes; the file name falls back to
  \<open>documento_<id>.pdf\<close> when it is the empty (falsy) string.
\<close>

definition download_alert :: js_string where
  "download_alert = ''Documento no disponible para descarga''"

definition download_target :: "nat \<Rightarrow> doc list \<Rightarrow> js_string + (js_string \<times> js_string)" where
  "download_target i docs =
     (case find_by_id i docs of
        None \<Rightarrow> Inl download_alert
      | Some d \<Rightarrow>
          (case doc_file d of
             None \<Rightarrow> Inl download_alert
           | Some f \<Rightarrow>
               Inr (fo_data f,
                    if fo_name f \<noteq> [] then fo_name f
                    else ''documento_'' @ js_nat_str i @ ''.pdf'')))"

lemmas collection_defs = providers_of_def filter_by_provider_def apply_filters_def
  new_doc_def push_doc_def delete_by_id_def find_by_id_def

section \<open>Shared lemmas\<close>

definition matches_filter :: "js_string \<Rightarrow> js_string \<Rightarrow> doc \<Rightarrow> bool" where
  "matches_filter active_provider filter_type d \<longleftrightarrow>
     (active_provider = ''all'' \<or> provider d = active_provider) \<and>
     (filter_type = [] \<or> doc_type d = filter_type)"

lemma apply_filters_as_filter [model_simps]:
  "apply_filters p t docs = filter (matches_filter p t) docs"
  by (auto simp: apply_filters_def matches_filter_def Let_def filter_filter_conj
      intro: filter_cong)

lemma filter_by_provider_as_apply_filters:
  "filter_by_provider p docs = apply_filters p [] docs"
  by (simp add: filter_by_provider_def apply_filters_def)

lemma find_by_id_Some:
  "find_by_id i docs = Some d \<Longrightarrow> d \<in> set docs \<and> doc_id d = i"
  unfolding find_by_id_def by (rule find_Some_first)

lemma find_by_id_None_iff [model_simps]:
  "find_by_id i docs = None \<longleftrightarrow> i \<notin> set (doc_ids docs)"
  by (auto simp: find_by_id_def find_None_iff doc_ids_def)

lemma find_by_id_snoc_fresh:
  "i \<notin> set (doc_ids docs) \<Longrightarrow> doc_id d = i \<Longrightarrow> find_by_id i (push_doc docs d) = Some d"
  by (induction docs) (auto simp: find_by_id_def push_doc_def)

lemma doc_ids_delete_by_id [model_simps]:
  "doc_ids (delete_by_id i docs) = filter (\<lambda>j. j \<noteq> i) (doc_ids docs)"
  by (induction docs) (simp_all add: delete_by_id_def)

lemma set_delete_by_id [model_simps]:
  "set (delete_by_id i docs) = {d \<in> set docs. doc_id d \<noteq> i}"
  by (auto simp: delete_by_id_def)

lemma new_doc_fields [model_simps]:
  "doc_id (new_doc docs p n t dt fn r) = Suc (length docs)"
  "provider (new_doc docs p n t dt fn r) = p"
  "doc_type (new_doc docs p n t dt fn r) = t"
  "doc_file (new_doc docs p n t dt fn r) = Some \<lparr>fo_name = fn, fo_data = r\<rparr>"
  by (simp_all add: new_doc_def)

section \<open>Properties\<close>

text \<open>
  The type filter is exact string equality applied after the provider filter;
  \<open>'all'\<close> switches the provider filter off, the empty string the type filter.
  With both off, the whole array is returned in its order.
\<close>

lemma apply_filters_all_identity: "apply_filters ''all'' [] docs = docs"
  by (simp add: apply_filters_def)

text \<open>
  C18: the combined filter of \<open>applyFilter\<close> keeps exactly the records that
  pass both conditions (\<open>all\<close> switches the provider test off, the empty
  type the type test), and it keeps them in the array's order: the result is a
  subsequence of the array.
\<close>

theorem apply_filters_exact:
  "subseq (apply_filters p t docs) docs \<and>
   (\<forall>d. d \<in> set (apply_filters p t docs) \<longleftrightarrow>
        d \<in> set docs \<and> (p = ''all'' \<or> provider d = p) \<and> (t = [] \<or> doc_type d = t))"
  by (auto simp: apply_filters_as_filter matches_filter_def)

text \<open>
  C19: the provider tabs list each provider of the array once, in the order of
  first occurrence: the list is the array's providers with later repetitions
  removed.
\<close>

theorem providers_of_first_seen:
  "providers_of docs = rev (remdups (rev (map provider docs))) \<and>
   distinct (providers_of docs) \<and> set (providers_of docs) = provider ` set docs"
  by (simp add: providers_of_def js_set_values_first_seen [symmetric] model_simps)

text \<open>Deleting removes exactly the records with that id and keeps the others in order.\<close>

lemma delete_by_id_absent:
  "i \<notin> set (doc_ids docs) \<Longrightarrow> delete_by_id i docs = docs"
  by (induction docs) (simp_all add: delete_by_id_def)

lemma find_after_delete: "find_by_id i (delete_by_id i docs) = None"
  by (simp add: find_by_id_def delete_by_id_def find_filter_neg)

text \<open>Appending the new record keeps the consecutive ids and the files.\<close>

lemma push_new_doc_consecutive:
  "ids_consecutive docs \<Longrightarrow> ids_consecutive (push_doc docs (new_doc docs p n t dt fn r))"
  by (simp add: push_doc_def ids_consecutive_snoc new_doc_fields)

end
