(* ===== verification/Render.thy ===== *)
theory Render
  imports Collection
begin

text \<open>
  The two rendering functions of \<^verbatim>\<open>src/app.js\<close> as functions on the parts
  of the DOM they own. \<open>renderDocuments\<close> (lines 84--109) replaces the rows of
  the table body: the model of the body is the list of its rows' \<open>innerHTML\<close>
  strings, built character for character from the source's template.
  \<open>renderProviderTabs\<close> (lines 51--73) empties the tab container down to its
  first child and appends one tab per provider: the model of the container is
  the list of its tabs, each with its \<open>data-provider\<close> attribute, its text and
  whether it has the class \<open>active\<close>. The tab handlers' class edits (lines 66--67
  and 163--164) and the lookup \<open>document.querySelector('.tab.active')\<close>
  (line 146) work on that list.
\<close>

section \<open>Table rows\<close>

definition nl :: js_string where "nl = [CHR 0x0A]"
definition dq :: js_string where "dq = [CHR 0x22]"
definition sp :: "nat \<Rightarrow> js_string" where "sp n = replicate n (CHR 0x20)"

text \<open>
  The template literal of lines 97--106, with its line breaks and indentation;
  \<open>td_cell x\<close> is the text \<open><td>${x}</td>\<close> of its first four lines.
\<close>

definition td_cell :: "js_string \<Rightarrow> js_string" where
  "td_cell x = ''<td>'' @ x @ ''</td>''"

text \<open>\<open>f(${n})\<close>: the call of a global function with a number, as the buttons' handlers write it.\<close>

definition js_call :: "js_string \<Rightarrow> nat \<Rightarrow> js_string" where
  "js_call f n = f @ ''('' @ js_nat_str n @ '')''"

definition row_html :: "doc \<Rightarrow> js_string" where
  "row_html d =
     nl @ sp 12 @ td_cell (provider d) @
     nl @ sp 12 @ td_cell (doc_name d) @
     nl @ sp 12 @ td_cell (doc_type d) @
     nl @ sp 12 @ td_cell (date d) @
     nl @ sp 12 @ ''<td>'' @
     nl @ sp 16 @ ''<button onclick='' @ dq @ js_call ''downloadDocument'' (doc_id d) @
        dq @ ''>Descargar</button>'' @
     nl @ sp 16 @ ''<button onclick='' @ dq @ js_call ''deleteDocument'' (doc_id d) @
        dq @ ''>Eliminar</button>'' @
     nl @ sp 12 @ ''</td>'' @
     nl @ sp 8"

text \<open>The single row shown for an empty list (line 90).\<close>

definition empty_row_html :: js_string where
  "empty_row_html =
     ''<td colspan='' @ dq @ ''5'' @ dq @ '' style='' @ dq @ ''text-align: center;'' @ dq @
     ''>No se encontraron documentos</td>''"

text \<open>\<open>renderDocuments(docs)\<close>: the new contents of the table body.\<close>

definition render_documents :: "doc list \<Rightarrow> js_string list" where
  "render_documents docs = (if docs = [] then [empty_row_html] else map row_html docs)"

section \<open>Provider tabs\<close>

record tab =
  tab_provider :: js_string
  tab_text :: js_string
  tab_active :: bool

text \<open>
  The loop of lines 56--58: while the container has more than one child, remove
  the last one.
\<close>

function clear_tabs :: "tab list \<Rightarrow> tab list" where
  "clear_tabs ts = (if 1 < length ts then clear_tabs (butlast ts) else ts)"
  by pat_completeness auto
termination
  by (relation "measure length") auto

declare clear_tabs.simps [simp del]

text \<open>The tab built for one provider (lines 61--64); it is not active.\<close>

definition make_tab :: "js_string \<Rightarrow> tab" where
  "make_tab p = \<lparr>tab_provider = p, tab_text = p, tab_active = False\<rparr>"

text \<open>\<open>renderProviderTabs()\<close> on the container's current tabs.\<close>

definition render_provider_tabs :: "doc list \<Rightarrow> tab list \<Rightarrow> tab list" where
  "render_provider_tabs docs ts = clear_tabs ts @ map make_tab (providers_of docs)"

text \<open>
  \<open>document.querySelectorAll('.tab').forEach(t => t.classList.remove('active'))\<close>
  (lines 66 and 163).
\<close>

definition deactivate_all :: "tab list \<Rightarrow> tab list" where
  "deactivate_all ts = map (\<lambda>t. t\<lparr>tab_active := False\<rparr>) ts"

text \<open>\<open>classList.add('active')\<close> on the \<open>i\<close>-th tab (lines 67 and 164).\<close>

definition activate :: "nat \<Rightarrow> tab list \<Rightarrow> tab list" where
  "activate i ts = ts[i := (ts ! i)\<lparr>tab_active := True\<rparr>]"

text \<open>
  \<open>document.querySelector('.tab.active').getAttribute('data-provider')\<close>
  (line 146): the first active tab in document order, \<open>None\<close> for the
  \<open>null\<close> that \<open>querySelector\<close> returns when there is none.
\<close>

definition active_tab_provider :: "tab list \<Rightarrow> js_string option" where
  "active_tab_provider ts = map_option tab_provider (List.find tab_active ts)"

text \<open>
  \<open>document.querySelector('.tab[data-provider="all"]')\<close> (line 164): the
  index of the first tab whose \<open>data-provider\<close> is \<open>all\<close>.
\<close>

definition all_tab_index :: "tab list \<Rightarrow> nat option" where
  "all_tab_index ts = first_index (\<lambda>t. tab_provider t = ''all'') ts"

section \<open>Lemmas\<close>

lemma clear_tabs_take: "clear_tabs ts = take 1 ts"
proof (induction ts rule: clear_tabs.induct)
  case (1 ts)
  show ?case
  proof (cases "1 < length ts")
    case True
    with "1.IH" have "clear_tabs (butlast ts) = take 1 (butlast ts)" by simp
    moreover from True have "take 1 (butlast ts) = take 1 ts"
      by (cases ts rule: rev_cases) (auto simp: Suc_le_eq)
    ultimately show ?thesis using True by (simp add: clear_tabs.simps [of ts])
  next
    case False
    then have "take 1 ts = ts" by simp
    with False show ?thesis by (simp add: clear_tabs.simps [of ts])
  qed
qed

lemma render_provider_tabs_cons [model_simps]:
  "render_provider_tabs docs (t # ts) = t # map make_tab (providers_of docs)"
  by (simp add: render_provider_tabs_def clear_tabs_take)

lemma tab_provider_deactivate_all [model_simps]:
  "map tab_provider (deactivate_all ts) = map tab_provider ts"
  by (simp add: deactivate_all_def comp_def)

lemma tab_provider_activate [model_simps]:
  "map tab_provider (activate i ts) = map tab_provider ts"
  by (cases "i < length ts") (simp_all add: activate_def list_eq_iff_nth_eq nth_list_update)

lemma length_activate [model_simps]: "length (activate i ts) = length ts"
  by (simp add: activate_def)

lemma active_count_deactivate_all [model_simps]:
  "filter tab_active (deactivate_all ts) = []"
  by (simp add: deactivate_all_def filter_empty_conv)

lemma active_count_activate_deactivated:
  "i < length ts \<Longrightarrow> length (filter tab_active (activate i (deactivate_all ts))) = 1"
proof (induction ts arbitrary: i)
  case Nil
  then show ?case by simp
next
  case (Cons t ts)
  then show ?case
    by (cases i) (simp_all add: activate_def deactivate_all_def filter_empty_conv)
qed

section \<open>Properties\<close>

text \<open>
  C20: the \<open>while\<close> loop of \<open>renderProviderTabs\<close> terminates and leaves only
  the first tab, so the container ends as that tab followed by one fresh,
  inactive tab per provider in first-seen order.
\<close>

theorem render_provider_tabs_shape:
  "render_provider_tabs docs ts = take 1 ts @ map make_tab (providers_of docs) \<and>
   filter tab_active (map make_tab (providers_of docs)) = []"
proof -
  have "filter tab_active (map make_tab ps) = []" for ps
    by (induction ps) (simp_all add: make_tab_def)
  then show ?thesis by (simp add: render_provider_tabs_def clear_tabs_take)
qed

text \<open>
  C21: a row's cells are the record's text fields inserted verbatim into the
  markup, with no escaping; a field containing markup (a provider called
  \<open><img src=x onerror=...>\<close>) becomes part of the row's HTML.
\<close>

theorem row_html_fields_verbatim:
  "sublist (''<td>'' @ provider d @ ''</td>'') (row_html d) \<and>
   sublist (''<td>'' @ doc_name d @ ''</td>'') (row_html d) \<and>
   sublist (''<td>'' @ doc_type d @ ''</td>'') (row_html d) \<and>
   sublist (''<td>'' @ date d @ ''</td>'') (row_html d)"
  unfolding td_cell_def [symmetric] row_html_def
  by (intro conjI; (rule sublist_append_rightI | rule sublist_append_left_mono)+)

text \<open>
  C27: the id survives its trip through the row's markup: each row's two
  buttons call \<open>downloadDocument\<close> and \<open>deleteDocument\<close> with the decimal
  text of the record's id, and that text reads back as the same id.
\<close>

theorem row_buttons_pass_id:
  "sublist (js_call ''downloadDocument'' (doc_id d)) (row_html d) \<and>
   sublist (js_call ''deleteDocument'' (doc_id d)) (row_html d) \<and>
   js_parse_nat (js_nat_str (doc_id d)) = Some (doc_id d)"
proof -
  have "js_parse_nat (js_nat_str (doc_id d)) = Some (doc_id d)"
    by (simp add: js_parse_nat_def js_nat_str_nonempty parse_js_nat_str)
  moreover have "sublist (js_call ''downloadDocument'' (doc_id d)) (row_html d) \<and>
      sublist (js_call ''deleteDocument'' (doc_id d)) (row_html d)"
    unfolding row_html_def
    by (intro conjI; (rule sublist_append_rightI | rule sublist_append_left_mono)+)
  ultimately show ?thesis by blast
qed

text \<open>
  C28: the empty state is distinguishable: the row "No se encontraron
  documentos" is in the rendered table exactly when the list to render is
  empty, and otherwise there is one row per record, in order.
\<close>

theorem render_documents_empty_state:
  "(empty_row_html \<in> set (render_documents docs) \<longleftrightarrow> docs = []) \<and>
   (docs \<noteq> [] \<longrightarrow> render_documents docs = map row_html docs)"
proof -
  have "empty_row_html \<noteq> row_html d" for d
    by (simp add: row_html_def empty_row_html_def nl_def)
  then show ?thesis by (auto simp: render_documents_def)
qed

theorem render_documents_empty_state_witness:
  "initial_documents \<noteq> [] \<and>
   (empty_row_html \<in> set (render_documents initial_documents) \<longleftrightarrow> initial_documents = []) \<and>
   render_documents initial_documents = map row_html initial_documents"
proof -
  have h: "initial_documents \<noteq> []" by (simp add: initial_documents_def)
  show ?thesis using h render_documents_empty_state [of initial_documents] by blast
qed

end
