(* ===== verification/DataUrl.thy ===== *)
theory DataUrl
  imports Prelude
begin

text \<open>
  The browser side of the file payload. \<^verbatim>\<open>src/app.js\<close> stores, as a
  document's \<open>file.data\<close>, the result of \<open>FileReader.readAsDataURL\<close> (line
  141, read back on line 131), and \<open>downloadDocument\<close> hands that string to a
  link's \<open>href\<close> (line 177), so the saved file is what the browser decodes from
  it. Neither the reader nor the decoder is code of the repository: both are
  modelled from the File API and RFC 4648 base64 that the spec's capture and
  download contracts name, with a selected \<open>File\<close> as a record of its name,
  its MIME type and its bytes.
\<close>

section \<open>Selected files\<close>

record sel_file =
  sf_name :: js_string
  sf_type :: js_string
  sf_bytes :: "byte list"

section \<open>Base64\<close>

definition b64_alphabet :: js_string where
  "b64_alphabet = ''ABCDEFGHIJKLMNOPQRSTUVWXYZabcdefghijklmnopqrstuvwxyz0123456789+/''"

definition b64_pad :: char where "b64_pad = CHR ''=''"

definition b64_char :: "nat \<Rightarrow> char" where
  "b64_char n = b64_alphabet ! n"

text \<open>The value of a base64 digit, \<open>None\<close> for a character outside the alphabet.\<close>

definition b64_value :: "char \<Rightarrow> nat option" where
  "b64_value c = first_index (\<lambda>x. x = c) b64_alphabet"

text \<open>A 24-bit group as four 6-bit digits, most significant first, and back.\<close>

definition sextets :: "nat \<Rightarrow> nat list" where
  "sextets n = [n div 262144, n div 4096 mod 64, n div 64 mod 64, n mod 64]"

definition group_value :: "nat \<Rightarrow> nat \<Rightarrow> nat \<Rightarrow> nat \<Rightarrow> nat" where
  "group_value v1 v2 v3 v4 = v1 * 262144 + v2 * 4096 + v3 * 64 + v4"

text \<open>
  Encoding: three bytes make four digits; a final group of two bytes makes three
  digits and one pad, a final single byte two digits and two pads.
\<close>

fun b64_encode :: "byte list \<Rightarrow> js_string" where
  "b64_encode (a # b # c # rest) =
     map b64_char (sextets (unat a * 65536 + unat b * 256 + unat c)) @ b64_encode rest"
| "b64_encode [a, b] =
     map b64_char (take 3 (sextets (unat a * 65536 + unat b * 256))) @ [b64_pad]"
| "b64_encode [a] =
     map b64_char (take 2 (sextets (unat a * 65536))) @ [b64_pad, b64_pad]"
| "b64_encode [] = []"

text \<open>
  Decoding, group by group; a group with padding must be the last one. A
  character outside the alphabet fails the decode, as it fails the browser's
  forgiving-base64 decode.
\<close>

definition group_bytes :: "nat \<Rightarrow> byte list" where
  "group_bytes n = [of_nat (n div 65536), of_nat (n div 256 mod 256), of_nat (n mod 256)]"

fun b64_decode :: "js_string \<Rightarrow> byte list option" where
  "b64_decode [] = Some []"
| "b64_decode (c1 # c2 # c3 # c4 # rest) =
     (case (b64_value c1, b64_value c2) of
        (Some v1, Some v2) \<Rightarrow>
          (if rest = [] \<and> c3 = b64_pad \<and> c4 = b64_pad
           then Some (take 1 (group_bytes (group_value v1 v2 0 0)))
           else
             (case b64_value c3 of
                None \<Rightarrow> None
              | Some v3 \<Rightarrow>
                  (if rest = [] \<and> c4 = b64_pad
                   then Some (take 2 (group_bytes (group_value v1 v2 v3 0)))
                   else
                     (case (b64_value c4, b64_decode rest) of
                        (Some v4, Some bs) \<Rightarrow> Some (group_bytes (group_value v1 v2 v3 v4) @ bs)
                      | _ \<Rightarrow> None))))
      | _ \<Rightarrow> None)"
| "b64_decode _ = None"

section \<open>Data URLs\<close>

text \<open>
  \<open>readAsDataURL(file)\<close>: \<open>data:\<close>, the file's type (or
  \<open>application/octet-stream\<close> when the browser knows none), \<open>;base64,\<close>
  and the base64 of the bytes.
\<close>

definition read_as_data_url :: "sel_file \<Rightarrow> js_string" where
  "read_as_data_url f =
     ''data:'' @ (if sf_type f = [] then ''application/octet-stream'' else sf_type f) @
     '';base64,'' @ b64_encode (sf_bytes f)"

text \<open>
  The bytes a browser saves for a link whose \<open>href\<close> is a base64 data URL: the
  decode of what follows the first comma, when the header before it ends in
  \<open>;base64\<close>. Other URLs are outside the model (\<open>None\<close>).
\<close>

definition data_url_bytes :: "js_string \<Rightarrow> byte list option" where
  "data_url_bytes url =
     (if take 5 url = ''data:'' then
        (let header = takeWhile (\<lambda>c. c \<noteq> CHR '','') (drop 5 url);
             body = drop 1 (dropWhile (\<lambda>c. c \<noteq> CHR '','') (drop 5 url))
         in if CHR '','' \<in> set (drop 5 url) \<and> rev (take 7 (rev header)) = '';base64''
            then b64_decode body else None)
      else None)"

section \<open>Round trips\<close>

lemma b64_alphabet_distinct: "distinct b64_alphabet"
  by (simp add: b64_alphabet_def)

lemma length_b64_alphabet: "length b64_alphabet = 64"
  by (simp add: b64_alphabet_def)

lemma b64_value_char: "n < 64 \<Longrightarrow> b64_value (b64_char n) = Some n"
  unfolding b64_value_def b64_char_def
  by (rule first_index_nth_distinct) (simp_all add: b64_alphabet_distinct length_b64_alphabet)

lemma b64_pad_not_char: "n < 64 \<Longrightarrow> b64_char n \<noteq> b64_pad"
proof
  assume "n < 64" and eq: "b64_char n = b64_pad"
  then have "b64_pad \<in> set b64_alphabet"
    by (metis b64_char_def length_b64_alphabet nth_mem)
  then show False by (simp add: b64_pad_def b64_alphabet_def)
qed

lemma group_value_sextets:
  "group_value (n div 262144) (n div 4096 mod 64) (n div 64 mod 64) (n mod 64) = n"
proof -
  have a: "n mod 262144 = 4096 * (n div 4096 mod 64) + n mod 4096"
    using mod_mult2_eq [of n 4096 64] by simp
  have b: "n mod 4096 = 64 * (n div 64 mod 64) + n mod 64"
    using mod_mult2_eq [of n 64 64] by simp
  have "n = n div 262144 * 262144 + n mod 262144" by simp
  with a b show ?thesis by (simp add: group_value_def)
qed

lemma unat_byte_lt: "unat (w :: byte) < 256"
  using unsigned_less [of w] by simp

lemma group_bytes_value:
  fixes a b c :: byte
  shows "group_bytes (unat a * 65536 + unat b * 256 + unat c) = [a, b, c]"
proof -
  let ?n = "unat a * 65536 + unat b * 256 + unat c"
  have la: "unat a < 256" and lb: "unat b < 256" and lc: "unat c < 256"
    by (simp_all add: unat_byte_lt)
  have r: "unat b * 256 + unat c < 65536" using lb lc by linarith
  have "?n div 65536 = unat a" using r by simp
  moreover have "?n div 256 mod 256 = unat b"
  proof -
    have "?n = (unat a * 256 + unat b) * 256 + unat c" by simp
    then have "?n div 256 = unat a * 256 + unat b" using lc by simp
    then show ?thesis using lb by simp
  qed
  moreover have "?n mod 256 = unat c"
  proof -
    have "?n = (unat a * 256 + unat b) * 256 + unat c" by simp
    then show ?thesis using lc by (metis mod_mult_self3 mod_less)
  qed
  ultimately show ?thesis by (simp add: group_bytes_def)
qed

lemma sextets_lt: "n < 16777216 \<Longrightarrow> \<forall>v \<in> set (sextets n). v < 64"
  by (simp add: sextets_def less_mult_imp_div_less)

lemma group_lt:
  fixes a b c :: byte
  shows "unat a * 65536 + unat b * 256 + unat c < 16777216"
  using unat_byte_lt [of a] unat_byte_lt [of b] unat_byte_lt [of c] by linarith

theorem b64_roundtrip: "b64_decode (b64_encode bs) = Some bs"
proof (induction bs rule: b64_encode.induct)
  case (1 a b c rest)
  let ?n = "unat a * 65536 + unat b * 256 + unat c"
  have lt: "\<forall>v \<in> set (sextets ?n). v < 64" by (rule sextets_lt [OF group_lt])
  then have "b64_char (?n div 64 mod 64) \<noteq> b64_pad" "b64_char (?n mod 64) \<noteq> b64_pad"
    by (simp_all add: sextets_def b64_pad_not_char)
  with lt "1.IH" show ?case
    by (simp add: sextets_def b64_value_char group_value_sextets group_bytes_value)
next
  case (2 a b)
  let ?n = "unat a * 65536 + unat b * 256 + unat (0 :: byte)"
  have lt: "\<forall>v \<in> set (sextets ?n). v < 64" by (rule sextets_lt [OF group_lt])
  have z: "?n mod 64 = 0" by simp
  have "group_value (?n div 262144) (?n div 4096 mod 64) (?n div 64 mod 64) 0 = ?n"
    using group_value_sextets [of ?n] z by simp
  with lt show ?case
    using group_bytes_value [of a b 0] b64_pad_not_char
    by (simp add: sextets_def b64_value_char)
next
  case (3 a)
  let ?n = "unat a * 65536 + unat (0 :: byte) * 256 + unat (0 :: byte)"
  have lt: "\<forall>v \<in> set (sextets ?n). v < 64" by (rule sextets_lt [OF group_lt])
  have "?n div 64 mod 64 = 0" and "?n mod 64 = 0" by simp_all
  then have "group_value (?n div 262144) (?n div 4096 mod 64) 0 0 = ?n"
    using group_value_sextets [of ?n] by simp
  with lt show ?case
    using group_bytes_value [of a 0 0]
    by (simp add: sextets_def b64_value_char)
next
  case 4
  show ?case by simp
qed

lemma data_url_bytes_header:
  assumes "CHR '','' \<notin> set m"
  shows "data_url_bytes (''data:'' @ m @ '';base64,'' @ body) = b64_decode body"
proof -
  let ?r = "m @ '';base64,'' @ body"
  have tw: "takeWhile (\<lambda>c. c \<noteq> CHR '','') ?r = m @ '';base64''"
    by (subst takeWhile_append2) (use assms in auto)
  have dw: "dropWhile (\<lambda>c. c \<noteq> CHR '','') ?r = CHR '','' # body"
    by (subst dropWhile_append2) (use assms in auto)
  have "rev (take 7 (rev (m @ '';base64''))) = '';base64''" by simp
  with tw dw show ?thesis by (simp add: data_url_bytes_def Let_def)
qed

theorem data_url_roundtrip:
  assumes "CHR '','' \<notin> set (sf_type f)"
  shows "data_url_bytes (read_as_data_url f) = Some (sf_bytes f)"
proof -
  let ?m = "if sf_type f = [] then ''application/octet-stream'' else sf_type f"
  have hm: "CHR '','' \<notin> set ?m" using assms by simp
  show ?thesis
    by (simp only: read_as_data_url_def data_url_bytes_header [OF hm] b64_roundtrip)
qed

end
