(* ===== verification/Page.thy ===== *)
theory Page
  imports Render DataUrl
begin

text \<open>
  The page of \<^verbatim>\<open>src/app.js\<close> as a state machine. The state is the array
  \<open>documents\<close> together with the parts of the DOM the script reads or writes
  (the tab container, the table body, the form's inputs, the file label, the type
  select), the \<open>FileReader\<close>s started and not yet finished, and what the page
  has shown the user (alerts, downloads, uncaught exceptions). Each event is one
  handler of the script run to completion, as the browser's event loop runs it;
  a reader's \<open>onload\<close> is an event of its own, so the order in which user
  actions and file reads interleave is explicit. \<open>page_step\<close> is the
  deterministic step of one event, \<open>page_run\<close> a sequence of them and
  \<open>reachable\<close> the states some sequence leads to from the loaded page.
\<close>

section \<open>State\<close>

record page =
  documents :: "doc list"
  tabs :: "tab list"
  tbody :: "js_string list"
  provider_input :: js_string
  name_input :: js_string
  type_input :: js_string
  date_input :: js_string
  file_input :: "sel_file option"
  file_label :: js_string
  filter_type :: js_string
  readers :: "sel_file list"
  alerts :: "js_string list"
  downloads :: "(js_string \<times> js_string) list"
  console :: "js_error list"

definition no_file_label :: js_string where
  "no_file_label = ''Ning'' @ [CHR 0xFA] @ ''n archivo seleccionado''"

definition select_file_alert :: js_string where
  "select_file_alert = ''Por favor seleccione un archivo''"

text \<open>
  The page as the HTML delivers it (the HTML file is not part of the
  repository's sources): the module-level array of line 2, a tab container
  holding only the \<open>Todos\<close> tab with \<open>data-provider="all"\<close> and class
  \<open>active\<close>, an empty table body, an empty form and type select.
\<close>

definition all_tab :: tab where
  "all_tab = \<lparr>tab_provider = ''all'', tab_text = ''Todos'', tab_active = True\<rparr>"

definition html_page :: page where
  "html_page =
     \<lparr>documents = initial_documents, tabs = [all_tab], tbody = [],
      provider_input = [], name_input = [], type_input = [], date_input = [],
      file_input = None, file_label = no_file_label, filter_type = [],
      readers = [], alerts = [], downloads = [], console = []\<rparr>"

section \<open>Handlers\<close>

text \<open>The \<open>DOMContentLoaded\<close> listener (lines 39--41).\<close>

definition on_dom_content_loaded :: "page \<Rightarrow> page" where
  "on_dom_content_loaded s =
     s\<lparr>tabs := render_provider_tabs (documents s) (tabs s),
       tbody := render_documents (documents s)\<rparr>"

definition page_loaded :: page where
  "page_loaded = on_dom_content_loaded html_page"

text \<open>
  The file input's \<open>change\<close> listener (lines 44--47), after the browser has
  set the selection.
\<close>

definition on_file_change :: "sel_file option \<Rightarrow> page \<Rightarrow> page" where
  "on_file_change f s =
     s\<lparr>file_input := f,
       file_label := (case f of None \<Rightarrow> no_file_label | Some x \<Rightarrow> sf_name x)\<rparr>"

text \<open>
  The form's \<open>submit\<close> listener (lines 112--121 and 141): without a selected
  file it alerts and returns; otherwise it starts a reader on the selected file.
\<close>

definition on_submit :: "page \<Rightarrow> page" where
  "on_submit s =
     (case file_input s of
        None \<Rightarrow> s\<lparr>alerts := alerts s @ [select_file_alert]\<rparr>
      | Some f \<Rightarrow> s\<lparr>readers := readers s @ [f]\<rparr>)"

text \<open>\<open>documentForm.reset()\<close> and the label reset (lines 138--139).\<close>

definition reset_form :: "page \<Rightarrow> page" where
  "reset_form s =
     s\<lparr>provider_input := [], name_input := [], type_input := [], date_input := [],
       file_input := None, file_label := no_file_label\<rparr>"

text \<open>
  The \<open>onload\<close> of the \<open>i\<close>-th pending reader (lines 122--140). The object
  literal reads the form and \<open>fileInput.files[0].name\<close> now, when the read
  completes: with no file selected any more, that property access throws a
  \<open>TypeError\<close> before anything is pushed.
\<close>

definition on_reader_load :: "nat \<Rightarrow> page \<Rightarrow> page js_result" where
  "on_reader_load i s =
     (if i < length (readers s) then
        (let r = readers s ! i;
             s1 = s\<lparr>readers := remove_at i (readers s)\<rparr>
         in case file_input s1 of
              None \<Rightarrow> Inl (TypeError ''fileInput.files[0] is undefined'', s1)
            | Some cur \<Rightarrow>
                (let d = new_doc (documents s1) (provider_input s1) (name_input s1)
                           (type_input s1) (date_input s1) (sf_name cur) (read_as_data_url r);
                     docs = push_doc (documents s1) d
                 in Inr (reset_form (s1\<lparr>documents := docs,
                                        tabs := render_provider_tabs docs (tabs s1),
                                        tbody := render_documents docs\<rparr>))))
      else Inr s)"

text \<open>
  The click listener of a provider tab (lines 65--70). Only the tabs that
  \<open>renderProviderTabs\<close> creates get it; the first tab (\<open>Todos\<close>) has no
  listener of the script.
\<close>

definition on_click_tab :: "nat \<Rightarrow> page \<Rightarrow> page" where
  "on_click_tab i s =
     (if 0 < i \<and> i < length (tabs s) then
        s\<lparr>tabs := activate i (deactivate_all (tabs s)),
          tbody := render_documents (filter_by_provider (tab_provider (tabs s ! i)) (documents s))\<rparr>
      else s)"

text \<open>The \<open>applyFilter\<close> listener (lines 145--158).\<close>

definition on_apply_filter :: "page \<Rightarrow> page js_result" where
  "on_apply_filter s =
     (case active_tab_provider (tabs s) of
        None \<Rightarrow> Inl (TypeError ''document.querySelector(...) is null'', s)
      | Some p \<Rightarrow> Inr (s\<lparr>tbody := render_documents (apply_filters p (filter_type s) (documents s))\<rparr>))"

text \<open>The \<open>resetFilter\<close> listener (lines 161--166).\<close>

definition on_reset_filter :: "page \<Rightarrow> page js_result" where
  "on_reset_filter s =
     (let s1 = s\<lparr>filter_type := [], tabs := deactivate_all (tabs s)\<rparr>
      in case all_tab_index (tabs s1) of
           None \<Rightarrow> Inl (TypeError ''document.querySelector(...) is null'', s1)
         | Some j \<Rightarrow> Inr (s1\<lparr>tabs := activate j (tabs s1), tbody := render_documents (documents s1)\<rparr>))"

text \<open>\<open>downloadDocument(id)\<close> (lines 169--183): an alert, or one download.\<close>

definition download_document :: "nat \<Rightarrow> page \<Rightarrow> page" where
  "download_document i s =
     (case download_target i (documents s) of
        Inl msg \<Rightarrow> s\<lparr>alerts := alerts s @ [msg]\<rparr>
      | Inr link \<Rightarrow> s\<lparr>downloads := downloads s @ [link]\<rparr>)"

text \<open>\<open>deleteDocument(id)\<close> (lines 186--192), with the user's answer to \<open>confirm\<close>.\<close>

definition delete_document :: "nat \<Rightarrow> bool \<Rightarrow> page \<Rightarrow> page" where
  "delete_document i ok s =
     (if ok then
        (let docs = delete_by_id i (documents s)
         in s\<lparr>documents := docs, tabs := render_provider_tabs docs (tabs s),
              tbody := render_documents docs\<rparr>)
      else s)"

section \<open>Events and runs\<close>

datatype event =
    File_change "sel_file option"
  | Fill_form js_string js_string js_string js_string
  | Select_filter_type js_string
  | Submit
  | Reader_load nat
  | Click_tab nat
  | Apply_filter
  | Reset_filter
  | Download nat
  | Delete nat bool

text \<open>An uncaught exception ends the handler and is reported on the console.\<close>

definition finish :: "page js_result \<Rightarrow> page" where
  "finish r = (case r of Inl (e, s) \<Rightarrow> s\<lparr>console := console s @ [e]\<rparr> | Inr s \<Rightarrow> s)"

fun page_step :: "page \<Rightarrow> event \<Rightarrow> page" where
  "page_step s (File_change f) = on_file_change f s"
| "page_step s (Fill_form p n t d) =
     s\<lparr>provider_input := p, name_input := n, type_input := t, date_input := d\<rparr>"
| "page_step s (Select_filter_type t) = s\<lparr>filter_type := t\<rparr>"
| "page_step s Submit = on_submit s"
| "page_step s (Reader_load i) = finish (on_reader_load i s)"
| "page_step s (Click_tab i) = on_click_tab i s"
| "page_step s Apply_filter = finish (on_apply_filter s)"
| "page_step s Reset_filter = finish (on_reset_filter s)"
| "page_step s (Download i) = download_document i s"
| "page_step s (Delete i ok) = delete_document i ok s"

fun page_run :: "page \<Rightarrow> event list \<Rightarrow> page" where
  "page_run s [] = s"
| "page_run s (e # es) = page_run (page_step s e) es"

inductive reachable :: "page \<Rightarrow> bool" where
  loaded: "reachable page_loaded"
| step: "reachable s \<Longrightarrow> reachable (page_step s e)"

declare on_file_change_def [handler_defs] on_submit_def [handler_defs]
  on_reader_load_def [handler_defs] on_click_tab_def [handler_defs]
  on_apply_filter_def [handler_defs] on_reset_filter_def [handler_defs]
  download_document_def [handler_defs] delete_document_def [handler_defs]
  finish_def [handler_defs] reset_form_def [handler_defs]

section \<open>Invariants\<close>

text \<open>
  The tab container holds the \<open>all\<close> tab followed by one tab per provider of
  the current array, in first-seen order; at most one tab is active; every record
  has a file; the table body shows some filtered view of the current array.
\<close>

definition tabs_match :: "page \<Rightarrow> bool" where
  "tabs_match s \<longleftrightarrow> map tab_provider (tabs s) = ''all'' # providers_of (documents s)"

definition one_active :: "page \<Rightarrow> bool" where
  "one_active s \<longleftrightarrow> length (filter tab_active (tabs s)) \<le> 1"

definition shows_view :: "page \<Rightarrow> js_string \<Rightarrow> js_string \<Rightarrow> bool" where
  "shows_view s p t \<longleftrightarrow> tbody s = render_documents (apply_filters p t (documents s))"

subsection \<open>Tabs\<close>

lemma render_tabs_match:
  assumes "map tab_provider ts = ''all'' # ps"
  shows "map tab_provider (render_provider_tabs docs ts) = ''all'' # providers_of docs"
proof (cases ts)
  case Nil
  with assms show ?thesis by simp
next
  case (Cons t ts')
  with assms show ?thesis
    by (simp add: render_provider_tabs_cons make_tab_def comp_def)
qed

lemma render_tabs_one_active:
  "length (filter tab_active (render_provider_tabs docs ts)) \<le> 1"
proof -
  have "filter tab_active (map make_tab ps) = []" for ps
    by (induction ps) (simp_all add: make_tab_def)
  then show ?thesis
    by (simp add: render_provider_tabs_def clear_tabs_take length_filter_le
        order_trans [OF length_filter_le])
qed

lemma tabs_match_step: "tabs_match s \<Longrightarrow> tabs_match (page_step s e)"
proof (cases e)
  case (Reader_load i)
  assume "tabs_match s"
  then show ?thesis using Reader_load
    by (auto simp: tabs_match_def handler_defs Let_def render_tabs_match
        split: option.splits)
next
  case (Delete i ok)
  assume "tabs_match s"
  then show ?thesis using Delete
    by (auto simp: tabs_match_def handler_defs Let_def render_tabs_match)
qed (auto simp: tabs_match_def handler_defs Let_def model_simps
      split: option.splits sum.splits)

lemma one_active_step: "one_active s \<Longrightarrow> one_active (page_step s e)"
proof (cases e)
  case (Click_tab i)
  assume "one_active s"
  then show ?thesis using Click_tab
    by (simp add: one_active_def handler_defs active_count_activate_deactivated)
next
  case Reset_filter
  show ?thesis
  proof (cases "all_tab_index (deactivate_all (tabs s))")
    case None
    with Reset_filter show ?thesis
      by (simp add: one_active_def handler_defs Let_def active_count_deactivate_all)
  next
    case (Some j)
    then have "j < length (tabs s)"
      by (auto simp: all_tab_index_def deactivate_all_def dest: first_index_Some)
    with Some Reset_filter show ?thesis
      by (simp add: one_active_def handler_defs Let_def active_count_activate_deactivated)
  qed
qed (auto simp: one_active_def handler_defs Let_def
      render_tabs_one_active [unfolded One_nat_def] split: option.splits sum.splits)

subsection \<open>Documents and table\<close>

lemma files_step:
  "all_have_file (documents s) \<Longrightarrow> all_have_file (documents (page_step s e))"
  by (cases e) (auto simp: handler_defs Let_def push_doc_def new_doc_fields
      delete_by_id_def all_have_file_filter split: option.splits sum.splits)

lemma view_step:
  "\<exists>p t. shows_view s p t \<Longrightarrow> \<exists>p t. shows_view (page_step s e) p t"
proof (cases e)
  case (Click_tab i)
  assume v: "\<exists>p t. shows_view s p t"
  show ?thesis
  proof (cases "0 < i \<and> i < length (tabs s)")
    case True
    with Click_tab have "shows_view (page_step s e) (tab_provider (tabs s ! i)) []"
      by (simp add: shows_view_def handler_defs filter_by_provider_as_apply_filters)
    then show ?thesis by blast
  next
    case False
    with v Click_tab show ?thesis by (auto simp: shows_view_def handler_defs)
  qed
next
  case Apply_filter
  assume v: "\<exists>p t. shows_view s p t"
  then show ?thesis using Apply_filter
    by (auto simp: shows_view_def handler_defs split: option.splits)
next
  case Reset_filter
  assume v: "\<exists>p t. shows_view s p t"
  show ?thesis
  proof (cases "all_tab_index (deactivate_all (tabs s))")
    case None
    with v Reset_filter show ?thesis by (auto simp: shows_view_def handler_defs Let_def)
  next
    case (Some j)
    with Reset_filter have "shows_view (page_step s e) ''all'' []"
      by (simp add: shows_view_def handler_defs Let_def apply_filters_all_identity)
    then show ?thesis by blast
  qed
next
  case (Reader_load i)
  assume v: "\<exists>p t. shows_view s p t"
  show ?thesis
  proof (cases "i < length (readers s) \<and> file_input s \<noteq> None")
    case True
    with Reader_load have "shows_view (page_step s e) ''all'' []"
      by (auto simp: shows_view_def handler_defs Let_def apply_filters_all_identity)
    then show ?thesis by blast
  next
    case False
    with v Reader_load show ?thesis by (auto simp: shows_view_def handler_defs Let_def)
  qed
next
  case (Delete i ok)
  assume v: "\<exists>p t. shows_view s p t"
  show ?thesis
  proof (cases ok)
    case True
    with Delete have "shows_view (page_step s e) ''all'' []"
      by (simp add: shows_view_def handler_defs Let_def apply_filters_all_identity)
    then show ?thesis by blast
  next
    case False
    with v Delete show ?thesis by (simp add: handler_defs)
  qed
qed (auto simp: shows_view_def handler_defs split: option.splits sum.splits)

text \<open>An event that deletes nothing: any event but a confirmed \<open>deleteDocument\<close>.\<close>

fun deletes_nothing :: "event \<Rightarrow> bool" where
  "deletes_nothing (Delete i ok) = (\<not> ok)"
| "deletes_nothing e = True"

lemma ids_consecutive_step:
  "deletes_nothing e \<Longrightarrow> ids_consecutive (documents s) \<Longrightarrow>
     ids_consecutive (documents (page_step s e))"
  by (cases e) (auto simp: handler_defs Let_def push_new_doc_consecutive
      split: option.splits sum.splits)

subsection \<open>Reachable states\<close>

lemma reachable_run: "reachable s \<Longrightarrow> reachable (page_run s es)"
  by (induction es arbitrary: s) (auto intro: reachable.step)

lemma reachable_is_run: "reachable s \<Longrightarrow> \<exists>es. s = page_run page_loaded es"
proof (induction rule: reachable.induct)
  case loaded
  have "page_loaded = page_run page_loaded []" by simp
  then show ?case by blast
next
  case (step s e)
  then obtain es where "s = page_run page_loaded es" by blast
  moreover have "page_run s' (es @ [e]) = page_step (page_run s' es) e" for s'
    by (induction es arbitrary: s') simp_all
  ultimately show ?case by metis
qed

lemma page_loaded_inv:
  "tabs_match page_loaded \<and> one_active page_loaded \<and>
   all_have_file (documents page_loaded) \<and> shows_view page_loaded ''all'' []"
proof -
  have "map tab_provider (map make_tab ps) = ps" for ps
    by (induction ps) (simp_all add: make_tab_def)
  moreover have "filter tab_active (map make_tab ps) = []" for ps
    by (induction ps) (simp_all add: make_tab_def)
  ultimately show ?thesis
    using initial_documents_wf
    by (simp add: tabs_match_def one_active_def shows_view_def page_loaded_def html_page_def
        on_dom_content_loaded_def render_provider_tabs_cons all_tab_def apply_filters_all_identity)
qed

lemma reachable_page_inv:
  "reachable s \<Longrightarrow>
     tabs_match s \<and> one_active s \<and> all_have_file (documents s) \<and> (\<exists>p t. shows_view s p t)"
proof (induction rule: reachable.induct)
  case loaded
  then show ?case using page_loaded_inv by blast
next
  case (step s e)
  then show ?case by (simp add: tabs_match_step one_active_step files_step view_step)
qed

lemma reader_load_documents:
  "i < length (readers s) \<Longrightarrow> file_input s = Some g \<Longrightarrow>
     documents (page_step s (Reader_load i)) =
       push_doc (documents s) (new_doc (documents s) (provider_input s) (name_input s)
         (type_input s) (date_input s) (sf_name g) (read_as_data_url (readers s ! i)))"
  by (simp add: handler_defs Let_def)

lemma run_ids_consecutive:
  "list_all deletes_nothing es \<Longrightarrow> ids_consecutive (documents s) \<Longrightarrow>
     ids_consecutive (documents (page_run s es))"
  by (induction es arbitrary: s) (simp_all add: ids_consecutive_step)

lemma documents_page_loaded [simp]: "documents page_loaded = initial_documents"
  by (simp add: page_loaded_def html_page_def on_dom_content_loaded_def)

section \<open>Concrete runs\<close>

text \<open>A file a user may select, and the facts that evaluate a run of events.\<close>

definition sample_upload :: sel_file where
  "sample_upload = \<lparr>sf_name = ''informe.pdf'', sf_type = ''application/pdf'', sf_bytes = []\<rparr>"

lemmas page_eval = page_loaded_def html_page_def on_dom_content_loaded_def handler_defs Let_def
  initial_documents_def collection_defs render_provider_tabs_def clear_tabs_take
  js_set_values_def all_tab_def active_tab_provider_def activate_def deactivate_all_def
  make_tab_def sample_upload_def remove_at_def download_target_def all_tab_index_def
  render_documents_def

section \<open>Properties\<close>

subsection \<open>Identifiers\<close>

text \<open>
  C1: as long as no document is deleted, the ids the page assigns are 1, 2, ...,
  n in array order, so they are distinct: from the loaded page, every run of
  events without a confirmed delete ends with consecutive, distinct ids.
\<close>

theorem add_only_runs_keep_ids_consecutive:
  assumes "list_all deletes_nothing es"
  shows "doc_ids (documents (page_run page_loaded es)) =
           [1..<Suc (length (documents (page_run page_loaded es)))] \<and>
         ids_distinct (documents (page_run page_loaded es))"
proof -
  have "ids_consecutive (documents page_loaded)" using initial_documents_wf by simp
  with assms have "ids_consecutive (documents (page_run page_loaded es))"
    by (rule run_ids_consecutive)
  then show ?thesis by (simp add: ids_consecutive_distinct [unfolded ids_consecutive_def]
      ids_consecutive_def)
qed

theorem add_only_runs_keep_ids_consecutive_witness:
  "list_all deletes_nothing [File_change (Some sample_upload), Submit, Reader_load 0] \<and>
   doc_ids (documents (page_run page_loaded [File_change (Some sample_upload), Submit, Reader_load 0])) =
     [1..<Suc (length (documents (page_run page_loaded [File_change (Some sample_upload), Submit, Reader_load 0])))] \<and>
   ids_distinct (documents (page_run page_loaded [File_change (Some sample_upload), Submit, Reader_load 0]))"
proof -
  have h: "list_all deletes_nothing [File_change (Some sample_upload), Submit, Reader_load 0]" by simp
  show ?thesis using add_only_runs_keep_ids_consecutive [OF h] h by blast
qed

text \<open>
  C2: the id \<open>documents.length + 1\<close> is not fresh after a delete: deleting
  document 1 of the initial page and adding a document gives the ids 2, 3, 3.
\<close>

theorem delete_then_add_duplicates_id:
  "reachable (page_run page_loaded [Delete 1 True, File_change (Some sample_upload), Submit, Reader_load 0]) \<and>
   doc_ids (documents (page_run page_loaded
     [Delete 1 True, File_change (Some sample_upload), Submit, Reader_load 0])) = [2, 3, 3] \<and>
   \<not> ids_distinct (documents (page_run page_loaded
     [Delete 1 True, File_change (Some sample_upload), Submit, Reader_load 0]))"
proof -
  have r: "reachable (page_run page_loaded [Delete 1 True, File_change (Some sample_upload), Submit, Reader_load 0])"
    by (rule reachable_run [OF reachable.loaded])
  have "doc_ids (documents (page_run page_loaded
     [Delete 1 True, File_change (Some sample_upload), Submit, Reader_load 0])) = [2, 3, 3]"
    by (simp add: page_eval)
  with r show ?thesis by (simp add: ids_distinct_def)
qed

text \<open>
  C3: with a duplicated id the page confuses the two records: after the run of
  C2, the download button of the new record (id 3) saves the older record's file,
  and deleting id 3 removes both records.
\<close>

theorem duplicate_id_download_and_delete:
  "downloads (page_step (page_run page_loaded
      [Delete 1 True, File_change (Some sample_upload), Submit, Reader_load 0]) (Download 3)) =
     [(sample_pdf_data, ''certificado_calidad.pdf'')] \<and>
   length (documents (page_step (page_run page_loaded
      [Delete 1 True, File_change (Some sample_upload), Submit, Reader_load 0]) (Delete 3 True))) = 1"
  by (simp add: page_eval)

text \<open>
  C30: exactly one kind of event can break the uniqueness of ids: a completed read
  (with a file selected) whose id \<open>length + 1\<close> is already taken. Every other
  event, deletes included, keeps distinct ids distinct.
\<close>

theorem ids_distinct_step_iff:
  assumes "ids_distinct (documents s)"
  shows "ids_distinct (documents (page_step s e)) \<longleftrightarrow>
           \<not> (\<exists>i. e = Reader_load i \<and> i < length (readers s) \<and> file_input s \<noteq> None \<and>
                Suc (length (documents s)) \<in> set (doc_ids (documents s)))"
proof (cases e)
  case (Reader_load i)
  show ?thesis
  proof (cases "i < length (readers s) \<and> file_input s \<noteq> None")
    case True
    then obtain g where "file_input s = Some g" by auto
    with True Reader_load assms show ?thesis
      by (simp add: reader_load_documents push_doc_def new_doc_fields ids_distinct_def
          del: page_step.simps)
  next
    case False
    with Reader_load assms show ?thesis
      by (auto simp: handler_defs Let_def split: option.splits)
  qed
next
  case (Delete i ok)
  with assms show ?thesis
    by (simp add: delete_document_def Let_def ids_distinct_def doc_ids_delete_by_id)
qed (use assms in \<open>auto simp: handler_defs Let_def split: option.splits sum.splits\<close>)

theorem ids_distinct_step_iff_witness:
  "ids_distinct (documents (page_run page_loaded [Delete 1 True, File_change (Some sample_upload), Submit])) \<and>
   (ids_distinct (documents (page_step (page_run page_loaded [Delete 1 True, File_change (Some sample_upload), Submit])
       (Reader_load 0))) \<longleftrightarrow>
    \<not> (\<exists>i. Reader_load 0 = Reader_load i \<and>
         i < length (readers (page_run page_loaded [Delete 1 True, File_change (Some sample_upload), Submit])) \<and>
         file_input (page_run page_loaded [Delete 1 True, File_change (Some sample_upload), Submit]) \<noteq> None \<and>
         Suc (length (documents (page_run page_loaded [Delete 1 True, File_change (Some sample_upload), Submit])))
           \<in> set (doc_ids (documents (page_run page_loaded [Delete 1 True, File_change (Some sample_upload), Submit])))))"
proof -
  have h: "ids_distinct (documents (page_run page_loaded [Delete 1 True, File_change (Some sample_upload), Submit]))"
    by (simp add: page_eval ids_distinct_def)
  show ?thesis using h ids_distinct_step_iff [OF h, of "Reader_load 0"] by blast
qed

subsection \<open>Invariants of reachable states\<close>

text \<open>
  C4: in every reachable state the tab container holds the \<open>all\<close> tab followed
  by exactly one tab per provider of the current array, in first-seen order.
\<close>

theorem reachable_tabs_list:
  "reachable s \<Longrightarrow> map tab_provider (tabs s) = ''all'' # providers_of (documents s)"
  using reachable_page_inv by (auto simp: tabs_match_def)

theorem reachable_tabs_list_witness:
  "map tab_provider (tabs page_loaded) = ''all'' # providers_of (documents page_loaded)"
  by (rule reachable_tabs_list [OF reachable.loaded])

text \<open>
  C5: in every reachable state the table body shows the rows of a filtered view
  of the current array (or the empty-state row): no row of a deleted record and
  no stale row survives a change of the array.
\<close>

theorem reachable_table_view:
  "reachable s \<Longrightarrow> \<exists>p t. tbody s = render_documents (apply_filters p t (documents s))"
  using reachable_page_inv by (auto simp: shows_view_def)

theorem reachable_table_view_witness:
  "\<exists>p t. tbody page_loaded = render_documents (apply_filters p t (documents page_loaded))"
  by (rule reachable_table_view [OF reachable.loaded])

text \<open>C6: in every reachable state at most one tab has the class \<open>active\<close>.\<close>

theorem reachable_one_active_tab:
  "reachable s \<Longrightarrow> length (filter tab_active (tabs s)) \<le> 1"
  using reachable_page_inv by (auto simp: one_active_def)

theorem reachable_one_active_tab_witness:
  "length (filter tab_active (tabs page_loaded)) \<le> 1"
  by (rule reachable_one_active_tab [OF reachable.loaded])

text \<open>
  C7: in every reachable state every record carries a file, so downloading an id
  that is in the array never takes the "not available" branch: it adds one
  download and no alert.
\<close>

theorem reachable_download_succeeds:
  assumes "reachable s" and "i \<in> set (doc_ids (documents s))"
  shows "\<exists>link. download_document i s = s\<lparr>downloads := downloads s @ [link]\<rparr>"
proof -
  from assms(1) have files: "all_have_file (documents s)" using reachable_page_inv by blast
  from assms(2) obtain d where d: "find_by_id i (documents s) = Some d"
    by (cases "find_by_id i (documents s)") (auto simp: find_by_id_None_iff)
  then have "d \<in> set (documents s)" by (auto dest: find_by_id_Some)
  with files obtain f where "doc_file d = Some f"
    by (auto simp: all_have_file_def list_all_iff)
  with d show ?thesis by (auto simp: download_document_def download_target_def)
qed

theorem reachable_download_succeeds_witness:
  "reachable page_loaded \<and> (1::nat) \<in> set (doc_ids (documents page_loaded)) \<and>
   (\<exists>link. download_document 1 page_loaded =
      page_loaded\<lparr>downloads := downloads page_loaded @ [link]\<rparr>)"
proof -
  have h: "(1::nat) \<in> set (doc_ids (documents page_loaded))"
    by (simp add: initial_documents_def)
  show ?thesis using reachable.loaded h reachable_download_succeeds [OF reachable.loaded h] by blast
qed

subsection \<open>Filters and tabs\<close>

text \<open>
  C8: a reachable state in which no tab is active: after a provider tab is
  selected, adding a document re-renders the tabs without it, and the
  \<open>applyFilter\<close> button then throws a \<open>TypeError\<close> (querySelector returns
  null) and leaves the table as it was.
\<close>

theorem apply_filter_throws_after_add:
  "reachable (page_run page_loaded [Click_tab 1, File_change (Some sample_upload), Submit, Reader_load 0]) \<and>
   active_tab_provider (tabs (page_run page_loaded
     [Click_tab 1, File_change (Some sample_upload), Submit, Reader_load 0])) = None \<and>
   on_apply_filter (page_run page_loaded
     [Click_tab 1, File_change (Some sample_upload), Submit, Reader_load 0]) =
   Inl (TypeError ''document.querySelector(...) is null'',
        page_run page_loaded [Click_tab 1, File_change (Some sample_upload), Submit, Reader_load 0])"
proof -
  have r: "reachable (page_run page_loaded
     [Click_tab 1, File_change (Some sample_upload), Submit, Reader_load 0])"
    by (rule reachable_run [OF reachable.loaded])
  have none: "active_tab_provider (tabs (page_run page_loaded
     [Click_tab 1, File_change (Some sample_upload), Submit, Reader_load 0])) = None"
    by (simp add: page_eval)
  then have "on_apply_filter (page_run page_loaded
     [Click_tab 1, File_change (Some sample_upload), Submit, Reader_load 0]) =
   Inl (TypeError ''document.querySelector(...) is null'',
        page_run page_loaded [Click_tab 1, File_change (Some sample_upload), Submit, Reader_load 0])"
    by (simp only: on_apply_filter_def option.case)
  with r none show ?thesis by blast
qed

text \<open>
  C9: the tab of a provider named \<open>all\<close> (a free-text provider name) is
  treated as the "all providers" sentinel: after adding a document of provider
  \<open>all\<close>, clicking its tab shows every document, of every provider.
\<close>

theorem provider_named_all_shows_everything:
  "tab_provider (tabs (page_run page_loaded
      [Fill_form ''all'' ''Acta'' ''Acta'' ''2024-05-01'', File_change (Some sample_upload),
       Submit, Reader_load 0]) ! 3) = ''all'' \<and>
   length (tbody (page_run page_loaded
      [Fill_form ''all'' ''Acta'' ''Acta'' ''2024-05-01'', File_change (Some sample_upload),
       Submit, Reader_load 0, Click_tab 3])) = 4"
  by (simp add: page_eval)

text \<open>
  C10: clicking a provider tab ignores the selected type: with type
  \<open>Factura\<close> selected, the tab of \<open>Proveedor A\<close> shows both of its documents,
  the contract included; the combined filter shows only the invoice.
\<close>

theorem tab_click_ignores_type_filter:
  "filter_type (page_run page_loaded [Select_filter_type ''Factura'', Click_tab 1]) = ''Factura'' \<and>
   length (tbody (page_run page_loaded [Select_filter_type ''Factura'', Click_tab 1])) = 2 \<and>
   length (tbody (page_run page_loaded [Select_filter_type ''Factura'', Click_tab 1, Apply_filter])) = 1"
  by (simp add: page_eval)

text \<open>
  C25: on every reachable page the reset button never throws: it clears the type,
  makes the first tab (\<open>Todos\<close>) the only active one and shows the whole
  array.
\<close>

theorem reachable_reset_filter_shows_all:
  assumes "reachable s"
  shows "page_step s Reset_filter =
           s\<lparr>filter_type := [], tabs := activate 0 (deactivate_all (tabs s)),
             tbody := render_documents (documents s)\<rparr> \<and>
         active_tab_provider (tabs (page_step s Reset_filter)) = Some ''all''"
proof -
  from assms have "tabs_match s" using reachable_page_inv by blast
  then obtain t ts where t: "tabs s = t # ts" and all: "tab_provider t = ''all''"
    by (cases "tabs s") (auto simp: tabs_match_def)
  then have idx: "all_tab_index (deactivate_all (tabs s)) = Some 0"
    by (simp add: deactivate_all_def all_tab_index_def)
  then have "page_step s Reset_filter =
           s\<lparr>filter_type := [], tabs := activate 0 (deactivate_all (tabs s)),
             tbody := render_documents (documents s)\<rparr>"
    by (simp add: handler_defs Let_def)
  moreover have "active_tab_provider (activate 0 (deactivate_all (tabs s))) = Some ''all''"
    using t all by (simp add: active_tab_provider_def activate_def deactivate_all_def)
  ultimately show ?thesis by simp
qed

theorem reachable_reset_filter_shows_all_witness:
  "reachable page_loaded \<and>
   page_step page_loaded Reset_filter =
     page_loaded\<lparr>filter_type := [], tabs := activate 0 (deactivate_all (tabs page_loaded)),
       tbody := render_documents (documents page_loaded)\<rparr> \<and>
   active_tab_provider (tabs (page_step page_loaded Reset_filter)) = Some ''all''"
  using reachable.loaded reachable_reset_filter_shows_all [OF reachable.loaded] by blast

text \<open>
  C26: with an active tab, the apply button renders exactly the combined filter
  of that tab's provider and the selected type, and changes nothing else.
\<close>

theorem apply_filter_with_active_tab:
  "active_tab_provider (tabs s) = Some p \<Longrightarrow>
     page_step s Apply_filter =
       s\<lparr>tbody := render_documents (apply_filters p (filter_type s) (documents s))\<rparr>"
  by (simp add: handler_defs)

theorem apply_filter_with_active_tab_witness:
  "active_tab_provider (tabs page_loaded) = Some ''all'' \<and>
   page_step page_loaded Apply_filter =
     page_loaded\<lparr>tbody := render_documents (apply_filters ''all'' (filter_type page_loaded) (documents page_loaded))\<rparr>"
proof -
  have h: "active_tab_provider (tabs page_loaded) = Some ''all''"
    by (simp add: page_eval)
  show ?thesis using h apply_filter_with_active_tab [OF h] by blast
qed

text \<open>
  C29: on every reachable page the file label shows the name of the selected
  file, or "Ning\<acute>un archivo seleccionado" when none is selected: the change
  listener and the form reset after an upload keep the two in step.
\<close>

theorem reachable_file_label:
  "reachable s \<Longrightarrow>
     file_label s = (case file_input s of None \<Rightarrow> no_file_label | Some f \<Rightarrow> sf_name f)"
proof (induction rule: reachable.induct)
  case loaded
  show ?case by (simp add: page_loaded_def html_page_def on_dom_content_loaded_def)
next
  case (step s e)
  then show ?case
    by (cases e) (auto simp: handler_defs Let_def split: option.splits sum.splits)
qed

theorem reachable_file_label_witness:
  "file_label (page_run page_loaded [File_change (Some sample_upload)]) =
     (case file_input (page_run page_loaded [File_change (Some sample_upload)]) of
        None \<Rightarrow> no_file_label | Some f \<Rightarrow> sf_name f)"
  by (rule reachable_file_label [OF reachable_run [OF reachable.loaded]])

subsection \<open>Uploads\<close>

text \<open>
  C11: a completed read, while a file is selected, appends one record at the end
  of the array with id \<open>length + 1\<close>, the form values of that moment, the name
  of the file selected at that moment and the data URL of the file the reader
  read; the reader is consumed, the form is reset, and the tabs and the table are
  re-rendered from the new array.
\<close>

theorem reader_load_appends:
  assumes "i < length (readers s)" and "file_input s = Some g"
  shows "let docs = documents s @
             [\<lparr>doc_id = Suc (length (documents s)), provider = provider_input s,
               doc_name = name_input s, doc_type = type_input s, date = date_input s,
               doc_file = Some \<lparr>fo_name = sf_name g, fo_data = read_as_data_url (readers s ! i)\<rparr>\<rparr>];
             s' = page_step s (Reader_load i)
         in documents s' = docs \<and> readers s' = remove_at i (readers s) \<and>
            file_input s' = None \<and> file_label s' = no_file_label \<and>
            tabs s' = render_provider_tabs docs (tabs s) \<and> tbody s' = render_documents docs \<and>
            console s' = console s \<and> alerts s' = alerts s"
  using assms by (simp add: handler_defs Let_def push_doc_def new_doc_def)

theorem reader_load_appends_witness:
  "0 < length (readers (page_run page_loaded [File_change (Some sample_upload), Submit])) \<and>
   file_input (page_run page_loaded [File_change (Some sample_upload), Submit]) = Some sample_upload \<and>
   (let docs = documents (page_run page_loaded [File_change (Some sample_upload), Submit]) @
             [\<lparr>doc_id = Suc (length (documents (page_run page_loaded [File_change (Some sample_upload), Submit]))), provider = provider_input (page_run page_loaded [File_change (Some sample_upload), Submit]),
               doc_name = name_input (page_run page_loaded [File_change (Some sample_upload), Submit]), doc_type = type_input (page_run page_loaded [File_change (Some sample_upload), Submit]), date = date_input (page_run page_loaded [File_change (Some sample_upload), Submit]),
               doc_file = Some \<lparr>fo_name = sf_name sample_upload, fo_data = read_as_data_url (readers (page_run page_loaded [File_change (Some sample_upload), Submit]) ! 0)\<rparr>\<rparr>];
             s' = page_step (page_run page_loaded [File_change (Some sample_upload), Submit]) (Reader_load 0)
         in documents s' = docs \<and> readers s' = remove_at 0 (readers (page_run page_loaded [File_change (Some sample_upload), Submit])) \<and>
            file_input s' = None \<and> file_label s' = no_file_label \<and>
            tabs s' = render_provider_tabs docs (tabs (page_run page_loaded [File_change (Some sample_upload), Submit])) \<and> tbody s' = render_documents docs \<and>
            console s' = console (page_run page_loaded [File_change (Some sample_upload), Submit]) \<and> alerts s' = alerts (page_run page_loaded [File_change (Some sample_upload), Submit]))"
proof -
  have h1: "0 < length (readers (page_run page_loaded [File_change (Some sample_upload), Submit]))"
    by (simp add: page_eval)
  have h2: "file_input (page_run page_loaded [File_change (Some sample_upload), Submit]) = Some sample_upload"
    by (simp add: page_eval)
  show ?thesis by (intro conjI h1 h2 reader_load_appends [OF h1 h2])
qed

text \<open>
  C12: a completed read while no file is selected throws a \<open>TypeError\<close> at
  \<open>fileInput.files[0].name\<close>: the reader is consumed and nothing else
  changes, so the upload is lost.
\<close>

theorem reader_load_without_selection_throws:
  assumes "i < length (readers s)" and "file_input s = None"
  shows "page_step s (Reader_load i) =
           s\<lparr>readers := remove_at i (readers s),
             console := console s @ [TypeError ''fileInput.files[0] is undefined'']\<rparr>"
  using assms by (simp add: handler_defs Let_def)

theorem reader_load_without_selection_throws_witness:
  "0 < length (readers (page_run page_loaded [File_change (Some sample_upload), Submit, File_change None])) \<and> file_input (page_run page_loaded [File_change (Some sample_upload), Submit, File_change None]) = None \<and>
   page_step (page_run page_loaded [File_change (Some sample_upload), Submit, File_change None]) (Reader_load 0) =
     (page_run page_loaded [File_change (Some sample_upload), Submit, File_change None])\<lparr>readers := remove_at 0 (readers (page_run page_loaded [File_change (Some sample_upload), Submit, File_change None])),
       console := console (page_run page_loaded [File_change (Some sample_upload), Submit, File_change None]) @ [TypeError ''fileInput.files[0] is undefined'']\<rparr>"
proof -
  have h1: "0 < length (readers (page_run page_loaded [File_change (Some sample_upload), Submit, File_change None]))" by (simp add: page_eval)
  have h2: "file_input (page_run page_loaded [File_change (Some sample_upload), Submit, File_change None]) = None" by (simp add: page_eval)
  show ?thesis by (intro conjI h1 h2 reader_load_without_selection_throws [OF h1 h2])
qed

text \<open>
  C13: submitting twice before the first read completes loses the second upload:
  the first \<open>onload\<close> resets the form, so the second throws; one record is
  added instead of two.
\<close>

theorem double_submit_loses_upload:
  "length (documents (page_run page_loaded
      [File_change (Some sample_upload), Submit, Submit, Reader_load 0, Reader_load 0])) = 4 \<and>
   console (page_run page_loaded
      [File_change (Some sample_upload), Submit, Submit, Reader_load 0, Reader_load 0]) =
     [TypeError ''fileInput.files[0] is undefined''] \<and>
   readers (page_run page_loaded
      [File_change (Some sample_upload), Submit, Submit, Reader_load 0, Reader_load 0]) = []"
  by (simp add: page_eval)

text \<open>
  C14: submitting with no file selected alerts "Por favor seleccione un archivo"
  and changes nothing else: no reader starts and the array is unchanged.
\<close>

theorem submit_without_file_alerts:
  "file_input s = None \<Longrightarrow>
     page_step s Submit = s\<lparr>alerts := alerts s @ [select_file_alert]\<rparr>"
  by (simp add: on_submit_def)

theorem submit_without_file_alerts_witness:
  "file_input page_loaded = None \<and>
   page_step page_loaded Submit = page_loaded\<lparr>alerts := alerts page_loaded @ [select_file_alert]\<rparr>"
proof -
  have h: "file_input page_loaded = None"
    by (simp add: page_loaded_def html_page_def on_dom_content_loaded_def)
  show ?thesis using h submit_without_file_alerts [OF h] by blast
qed

subsection \<open>Deletes and downloads\<close>

text \<open>
  C15: after a confirmed delete of an id, downloading that id shows the alert
  "Documento no disponible para descarga" and saves nothing.
\<close>

theorem delete_then_download_alerts:
  "page_run s [Delete i True, Download i] =
     (page_step s (Delete i True))\<lparr>alerts := alerts s @ [download_alert]\<rparr>"
  by (simp add: delete_document_def download_document_def download_target_def Let_def
      find_after_delete)

text \<open>
  C16: a delete the user cancels, or a delete of an id that is not in the
  array, leaves the array as it is.
\<close>

theorem delete_cancelled_or_absent_keeps_documents:
  "\<not> ok \<or> i \<notin> set (doc_ids (documents s)) \<Longrightarrow>
     documents (page_step s (Delete i ok)) = documents s"
  by (auto simp: delete_document_def Let_def delete_by_id_absent)

theorem delete_cancelled_or_absent_keeps_documents_witness:
  "(7::nat) \<notin> set (doc_ids (documents page_loaded)) \<and>
   documents (page_step page_loaded (Delete 7 True)) = documents page_loaded"
proof -
  have h: "(7::nat) \<notin> set (doc_ids (documents page_loaded))"
    by (simp add: initial_documents_def)
  show ?thesis using h delete_cancelled_or_absent_keeps_documents [OF disjI2 [OF h]] by blast
qed

text \<open>
  C17: a confirmed delete removes exactly the records with that id, keeps the
  others in their order, and re-renders the tabs from the new array and the
  table with all of it.
\<close>

theorem delete_confirmed_removes_id:
  "let s' = page_step s (Delete i True)
   in documents s' = filter (\<lambda>d. doc_id d \<noteq> i) (documents s) \<and>
      tabs s' = render_provider_tabs (documents s') (tabs s) \<and>
      tbody s' = render_documents (documents s') \<and>
      i \<notin> set (doc_ids (documents s'))"
  by (auto simp: delete_document_def Let_def delete_by_id_def doc_ids_def)

end
