(* ===== verification/Spec2Isabelle.thy ===== *)
theory Spec2Isabelle
  imports Page
begin

text \<open>
  \<^bold>\<open>A verification library for the document catalogue of src/app.js.\<close>

  \<^medskip>\<^bold>\<open>The program.\<close> One script of 191 lines drives one HTML page. Its
  state is the module-level array \<open>documents\<close> (lines 2--36) and the DOM. The
  parts: the provider tabs (\<open>renderProviderTabs\<close>, lines 51--73, and the tab
  click listener), the table (\<open>renderDocuments\<close>, lines 84--109), the two
  filters (\<open>filterByProvider\<close>, lines 76--81, and the \<open>applyFilter\<close> and
  \<open>resetFilter\<close> listeners, lines 145--166), the upload form (the \<open>submit\<close>
  listener and its \<open>FileReader\<close>, lines 112--142, and the file label listener,
  lines 44--47), \<open>downloadDocument\<close> (lines 169--183) and
  \<open>deleteDocument\<close> (lines 186--192). They interact only through
  \<open>documents\<close> and the DOM: every handler that changes the array re-renders
  the tabs and the table; the filters read the active tab and the type select;
  the buttons of a row call the two global functions with the row's id. The
  browser's \<open>FileReader\<close> runs asynchronously: its \<open>onload\<close> is a later
  event.

  \<^medskip>\<^bold>\<open>The theories.\<close>
  \<^item> \<open>Prelude\<close>: JavaScript strings as HOL strings of code units, bytes as
    \<open>8 word\<close>, an uncaught exception as \<open>(js_error \<times> 'a) + 'a\<close>, the
    built-ins \<open>[...new Set(xs)]\<close> (\<open>js_set_values\<close>) and decimal number
    printing (\<open>js_nat_str\<close>), shared list lemmas and the collections
    \<open>model_simps\<close> and \<open>handler_defs\<close>.
  \<^item> \<open>Documents\<close>: the record objects (\<open>doc\<close>, \<open>file_obj\<close>), the
    initial array, and the well-formedness predicates \<open>ids_distinct\<close>,
    \<open>ids_consecutive\<close> and \<open>all_have_file\<close>.
  \<^item> \<open>Collection\<close>: the array logic of the handlers, each a function of the
    array: \<open>providers_of\<close> (line 53), \<open>filter_by_provider\<close>,
    \<open>apply_filters\<close> (lines 149--155), \<open>new_doc\<close> and \<open>push_doc\<close> (lines
    123--135), \<open>delete_by_id\<close> (line 188), \<open>find_by_id\<close> and
    \<open>download_target\<close> (lines 170--178).
  \<^item> \<open>Render\<close>: the table body as the list of its rows' \<open>innerHTML\<close>
    (\<open>row_html\<close>, \<open>render_documents\<close>), the tab container as a list of tabs
    (\<open>clear_tabs\<close> for the \<open>while\<close> loop, \<open>render_provider_tabs\<close>), and
    the class edits and \<open>querySelector\<close> lookups on tabs.
  \<^item> \<open>DataUrl\<close>: what the browser does with the file bytes (\<open>readAsDataURL\<close>,
    base64, the decoding of a data URL on download). This is not code of the
    repository; it is modelled from the spec's capture and download contracts.
  \<^item> \<open>Page\<close>: the whole page as a state machine. \<open>page\<close> is a record of
    \<open>documents\<close> and of every DOM value the script reads or writes, the pending
    readers, and the alerts, downloads and console errors shown. One definition
    per handler (\<open>on_submit\<close>, \<open>on_reader_load\<close>, \<open>on_click_tab\<close>,
    \<open>on_apply_filter\<close>, \<open>on_reset_filter\<close>, \<open>download_document\<close>,
    \<open>delete_document\<close>, \<open>on_file_change\<close>, \<open>on_dom_content_loaded\<close>), with
    the source's guards and early returns; \<open>page_step\<close> runs one event,
    \<open>page_run\<close> a list of them, \<open>reachable\<close> is the inductive set of states
    some run reaches from \<open>page_loaded\<close>.
  \<^item> this theory: the properties that span the page and the browser model.

  \<^medskip>\<^bold>\<open>What is proved.\<close>
  \<^item> Invariants of every reachable state, by rule induction over
    \<open>reachable\<close> from one preservation lemma per invariant and event
    (Page): the tabs are \<open>all\<close> followed by the providers in first-seen order,
    at most one tab is active, every record has a file (so a download of a present
    id never alerts), the table shows a filtered view of the current array, the
    file label matches the selection, and the reset button never throws.
  \<^item> Identifiers: on runs without a confirmed delete the ids are 1..n
    (\<open>add_only_runs_keep_ids_consecutive\<close>); after a delete they are not
    (\<open>delete_then_add_duplicates_id\<close>), and a duplicated id makes download
    and delete act on the wrong records; in general a single event breaks
    distinct ids exactly when it is a completed read whose id \<open>length + 1\<close> is
    taken (\<open>ids_distinct_step_iff\<close>).
  \<^item> Each handler on each branch, the error paths included: the alert without a
    file, the \<open>TypeError\<close> of a read completing with no selection, the lost
    second upload of a double submit, the \<open>TypeError\<close> of \<open>applyFilter\<close>
    once no tab is active, delete cancelled, absent or confirmed.
  \<^item> The list operations (Collection, Render): the combined filter as one
    predicate, the provider order, the tab loop, the row template (fields
    unescaped, ids passed and parsed back), the distinguishable empty state.
  \<^item> Across the page and the browser (this theory): an upload downloaded again
    gives back exactly its bytes (\<open>upload_download_roundtrip\<close>, through the
    base64 round trip of DataUrl); the sample payloads of the source do not
    decode; while ids are consecutive the array operations refine the spec's
    keyed collection (\<open>doc_map\<close>, \<open>spec_fresh_id\<close>).
  Concrete runs are closed theorems evaluated by the simplifier from
  \<open>page_loaded\<close>; \<open>sample_upload\<close> and \<open>pdf_upload\<close> are files a user
  may select.

  \<^medskip>\<^bold>\<open>Plan.\<close> Modelled first, in this order: the array operations, the
  rendering, the page state machine with every handler, then the browser's data
  URL. Still to do: a page-level simulation of the spec's keyed collection (an
  abstraction from \<open>page\<close> and one refinement lemma per event on delete-free
  runs); a characterisation of exactly when an upload is lost (reader completion
  against selection changes and form resets, over arbitrary interleavings); the
  converse base64 round trip on canonical strings; and the confirm and alert
  texts as part of the observable trace.

  \<^medskip>\<^bold>\<open>Modelling choices.\<close> The HTML page is not in the repository:
  \<open>html_page\<close> assumes a tab container holding one tab \<open>Todos\<close> with
  \<open>data-provider="all"\<close> and class \<open>active\<close>, and form fields whose reset
  value is the empty string. The user's typing and the browser's file selection
  are events (\<open>Fill_form\<close>, \<open>File_change\<close>), \<open>confirm\<close> is the boolean
  of the \<open>Delete\<close> event, and the row buttons are the \<open>Download\<close> and
  \<open>Delete\<close> events with any id (the two functions are global, so any id can
  reach them). There is no loop without a bound: the only loop of the script
  (lines 56--58) is \<open>clear_tabs\<close>, a \<open>function\<close> terminating on the length;
  no fuel is needed. Styling, the DOM nodes themselves, and the link element of
  a download (created, clicked and removed) are not modelled beyond the
  attributes they carry.
\<close>

section \<open>The spec's collection manager\<close>

text \<open>
  The spec describes the document collection as records keyed by unique ids,
  a new id being the largest id plus one. \<open>doc_map\<close> reads the array as that
  keyed collection (the first record with an id wins, as \<open>find\<close> does);
  \<open>spec_fresh_id\<close> is the spec's id policy.
\<close>

definition doc_map :: "doc list \<Rightarrow> (nat \<rightharpoonup> doc)" where
  "doc_map docs = map_of (map (\<lambda>d. (doc_id d, d)) docs)"

definition spec_fresh_id :: "doc list \<Rightarrow> nat" where
  "spec_fresh_id docs = Suc (fold max (doc_ids docs) 0)"

text \<open>A file with bytes, selected by the user in the concrete runs below.\<close>

definition pdf_upload :: sel_file where
  "pdf_upload = \<lparr>sf_name = ''acta.pdf'', sf_type = ''application/pdf'', sf_bytes = [37, 80, 68, 70, 45]\<rparr>"

lemma find_by_id_doc_map: "find_by_id i docs = doc_map docs i"
  by (induction docs) (auto simp: find_by_id_def doc_map_def)

lemma doc_map_delete: "doc_map (delete_by_id i docs) = (doc_map docs)(i := None)"
  by (induction docs) (auto simp: doc_map_def delete_by_id_def)

lemma doc_map_push_fresh:
  "doc_id d \<notin> set (doc_ids docs) \<Longrightarrow> doc_map (push_doc docs d) = (doc_map docs)(doc_id d \<mapsto> d)"
proof (induction docs)
  case Nil
  then show ?case by (simp add: doc_map_def push_doc_def)
next
  case (Cons x xs)
  then show ?case by (auto simp: doc_map_def push_doc_def fun_upd_twist)
qed

lemma fold_max_upt: "fold max [1..<Suc n] 0 = n"
proof (induction n)
  case 0
  then show ?case by simp
next
  case (Suc n)
  then show ?case by (simp add: max_def)
qed

section \<open>Upload and download\<close>

text \<open>
  C22: what a user uploads is what a later download saves. If the reader of
  file \<open>f\<close> completes while \<open>f\<close> is still the selected file and the new id
  is fresh, the download button of the new record saves a link whose data URL
  decodes to exactly the bytes of \<open>f\<close>, under \<open>f\<close>'s name (or
  \<open>documento_<id>.pdf\<close> for a file without a name).
\<close>

theorem upload_download_roundtrip:
  assumes "i < length (readers s)" and "readers s ! i = f" and "file_input s = Some f"
    and "Suc (length (documents s)) \<notin> set (doc_ids (documents s))"
    and "CHR '','' \<notin> set (sf_type f)"
  shows "downloads (page_run s [Reader_load i, Download (Suc (length (documents s)))]) =
           downloads s @ [(read_as_data_url f,
             if sf_name f = [] then ''documento_'' @ js_nat_str (Suc (length (documents s))) @ ''.pdf''
             else sf_name f)] \<and>
         data_url_bytes (fst (last (downloads
           (page_run s [Reader_load i, Download (Suc (length (documents s)))])))) = Some (sf_bytes f)"
proof -
  let ?n = "Suc (length (documents s))"
  let ?d = "new_doc (documents s) (provider_input s) (name_input s) (type_input s) (date_input s)
              (sf_name f) (read_as_data_url f)"
  let ?s1 = "page_step s (Reader_load i)"
  have docs: "documents ?s1 = push_doc (documents s) ?d"
    using reader_load_documents [OF assms(1,3)] assms(2) by simp
  have found: "find_by_id ?n (documents ?s1) = Some ?d"
    using docs find_by_id_snoc_fresh [OF assms(4)] by (simp add: new_doc_fields)
  have dl: "downloads ?s1 = downloads s"
    using assms(1,3) by (simp add: handler_defs Let_def)
  have "downloads (page_run s [Reader_load i, Download ?n]) =
          downloads s @ [(read_as_data_url f,
            if sf_name f = [] then ''documento_'' @ js_nat_str ?n @ ''.pdf'' else sf_name f)]"
    using found dl by (simp add: download_document_def download_target_def new_doc_def)
  moreover have "data_url_bytes (read_as_data_url f) = Some (sf_bytes f)"
    using assms(5) by (rule data_url_roundtrip)
  ultimately show ?thesis by simp
qed

theorem upload_download_roundtrip_witness:
  "0 < length (readers (page_run page_loaded [File_change (Some pdf_upload), Submit])) \<and>
   readers (page_run page_loaded [File_change (Some pdf_upload), Submit]) ! 0 = pdf_upload \<and>
   file_input (page_run page_loaded [File_change (Some pdf_upload), Submit]) = Some pdf_upload \<and>
   Suc (length (documents (page_run page_loaded [File_change (Some pdf_upload), Submit])))
     \<notin> set (doc_ids (documents (page_run page_loaded [File_change (Some pdf_upload), Submit]))) \<and>
   CHR '','' \<notin> set (sf_type pdf_upload) \<and>
   downloads (page_run (page_run page_loaded [File_change (Some pdf_upload), Submit])
       [Reader_load 0, Download (Suc (length (documents (page_run page_loaded [File_change (Some pdf_upload), Submit]))))]) =
     downloads (page_run page_loaded [File_change (Some pdf_upload), Submit]) @
       [(read_as_data_url pdf_upload,
         if sf_name pdf_upload = [] then ''documento_'' @ js_nat_str (Suc (length (documents (page_run page_loaded [File_change (Some pdf_upload), Submit])))) @ ''.pdf''
         else sf_name pdf_upload)] \<and>
   data_url_bytes (fst (last (downloads (page_run (page_run page_loaded [File_change (Some pdf_upload), Submit])
       [Reader_load 0, Download (Suc (length (documents (page_run page_loaded [File_change (Some pdf_upload), Submit]))))])))) =
     Some (sf_bytes pdf_upload)"
proof -
  have h1: "0 < length (readers (page_run page_loaded [File_change (Some pdf_upload), Submit]))"
    by (simp add: page_eval)
  have h2: "readers (page_run page_loaded [File_change (Some pdf_upload), Submit]) ! 0 = pdf_upload"
    by (simp add: page_eval)
  have h3: "file_input (page_run page_loaded [File_change (Some pdf_upload), Submit]) = Some pdf_upload"
    by (simp add: page_eval)
  have h4: "Suc (length (documents (page_run page_loaded [File_change (Some pdf_upload), Submit])))
     \<notin> set (doc_ids (documents (page_run page_loaded [File_change (Some pdf_upload), Submit])))"
    by (simp add: page_eval)
  have h5: "CHR '','' \<notin> set (sf_type pdf_upload)"
    by (simp add: pdf_upload_def)
  show ?thesis by (intro conjI h1 h2 h3 h4 h5 upload_download_roundtrip [OF h1 h2 h3 h4 h5])+
qed

text \<open>
  C23: the three records the page starts with carry the truncated data URL of the
  source (\<open>...JVBERi0xLjQKJ...\<close>): downloading one of them saves that URL, and
  it is not a base64 data URL a browser can decode, so no file comes out.
\<close>

theorem initial_payloads_not_decodable:
  "download_document 1 page_loaded =
     page_loaded\<lparr>downloads := [(sample_pdf_data, ''contrato_servicios.pdf'')]\<rparr> \<and>
   data_url_bytes sample_pdf_data = None"
proof -
  have "download_document 1 page_loaded =
          page_loaded\<lparr>downloads := [(sample_pdf_data, ''contrato_servicios.pdf'')]\<rparr>"
    by (simp add: download_document_def download_target_def find_by_id_def initial_documents_def
        page_loaded_def html_page_def on_dom_content_loaded_def)
  moreover have "data_url_bytes sample_pdf_data = None"
    by (simp add: sample_pdf_data_def data_url_bytes_def b64_value_def b64_alphabet_def)
  ultimately show ?thesis by blast
qed

section \<open>Refinement of the spec's collection\<close>

text \<open>
  C24: as long as the ids are consecutive (no delete happened, C1), the array
  operations implement the spec's keyed collection: the new record gets the
  spec's fresh id (largest id plus one) and adding it is a map update at that
  id; deleting an id is removing the key; \<open>find\<close> is lookup.
\<close>

theorem spec_manager_refinement:
  assumes "ids_consecutive docs"
  shows "doc_id (new_doc docs p n t dt fn r) = spec_fresh_id docs \<and>
         doc_map (push_doc docs (new_doc docs p n t dt fn r)) =
           (doc_map docs)(spec_fresh_id docs \<mapsto> new_doc docs p n t dt fn r) \<and>
         doc_map (delete_by_id i docs) = (doc_map docs)(i := None) \<and>
         find_by_id i docs = doc_map docs i"
proof -
  have ids: "doc_ids docs = [1..<Suc (length docs)]"
    using assms by (simp only: ids_consecutive_def)
  have fresh: "spec_fresh_id docs = Suc (length docs)"
    by (simp only: spec_fresh_id_def ids fold_max_upt)
  have "Suc (length docs) \<notin> set (doc_ids docs)"
    using assms by (auto simp: doc_ids_def dest: ids_consecutive_bound)
  then have "doc_map (push_doc docs (new_doc docs p n t dt fn r)) =
           (doc_map docs)(Suc (length docs) \<mapsto> new_doc docs p n t dt fn r)"
    using doc_map_push_fresh [of "new_doc docs p n t dt fn r" docs] by (simp add: new_doc_fields)
  with fresh show ?thesis
    by (simp add: new_doc_fields doc_map_delete find_by_id_doc_map)
qed

theorem spec_manager_refinement_witness:
  "ids_consecutive initial_documents \<and>
   doc_id (new_doc initial_documents ''Proveedor C'' ''Acta'' ''Acta'' ''2024-05-01'' ''acta.pdf'' []) =
     spec_fresh_id initial_documents \<and>
   doc_map (push_doc initial_documents
       (new_doc initial_documents ''Proveedor C'' ''Acta'' ''Acta'' ''2024-05-01'' ''acta.pdf'' [])) =
     (doc_map initial_documents)(spec_fresh_id initial_documents \<mapsto>
       new_doc initial_documents ''Proveedor C'' ''Acta'' ''Acta'' ''2024-05-01'' ''acta.pdf'' []) \<and>
   doc_map (delete_by_id 2 initial_documents) = (doc_map initial_documents)(2 := None) \<and>
   find_by_id 2 initial_documents = doc_map initial_documents 2"
proof -
  have h: "ids_consecutive initial_documents" using initial_documents_wf by blast
  show ?thesis using h spec_manager_refinement [OF h] by blast
qed

end
